theory Spec2Isabelle
  imports Main
begin

section \<open>Python values, strings and errors\<close>

text \<open>
  The two programs are \<^verbatim>\<open>Excel2Word.py\<close> (spreadsheet region to document table) and
  \<^verbatim>\<open>Word2Excel.py\<close> (document table to spreadsheet region). Exceptions are values
  of \<open>py_error\<close>; a function that can raise returns \<open>py_error + 'a\<close>.

  A Python string is modelled as a \<open>string\<close> whose characters are the code points
  U+0000 to U+00FF. On that range \<open>py_isspace\<close> is the whitespace test of
  \<^verbatim>\<open>str.strip\<close> and \<^verbatim>\<open>str.split\<close> (it contains the non-breaking space U+00A0),
  \<open>is_digit_char\<close> is the test of \<^verbatim>\<open>str.isdigit\<close> (the digits 0 to 9 and the
  superscripts U+00B2, U+00B3, U+00B9, which \<^verbatim>\<open>int\<close> refuses), and \<open>upper_char\<close>
  is \<^verbatim>\<open>str.upper\<close> on one character: a to z and the accented letters move to their
  capitals and U+00DF becomes SS. The capitals of U+00B5 and U+00FF lie above U+00FF;
  they are not letters A to Z, and the two characters are left as they are.
\<close>

datatype py_error = ValueError | IndexError | KeyError | AttributeError | OpenError | SaveError

definition py_isspace :: "char \<Rightarrow> bool" where
  "py_isspace c = (let n = (of_char c :: nat) in
     (9 \<le> n \<and> n \<le> 13) \<or> (28 \<le> n \<and> n \<le> 32) \<or> n = 133 \<or> n = 160)"

definition py_strip :: "string \<Rightarrow> string" where
  "py_strip s = rev (dropWhile py_isspace (rev (dropWhile py_isspace s)))"

definition is_decimal :: "char \<Rightarrow> bool" where
  "is_decimal c = (let n = (of_char c :: nat) in 48 \<le> n \<and> n \<le> 57)"

definition is_digit_char :: "char \<Rightarrow> bool" where
  "is_digit_char c = (let n = (of_char c :: nat) in
     (48 \<le> n \<and> n \<le> 57) \<or> n = 178 \<or> n = 179 \<or> n = 185)"

definition py_isdigit :: "string \<Rightarrow> bool" where
  "py_isdigit s = (s \<noteq> [] \<and> list_all is_digit_char s)"

definition digit_val :: "char \<Rightarrow> int" where
  "digit_val c = int (of_char c) - 48"

text \<open>\<^verbatim>\<open>int(x)\<close> on a string of digit characters: the decimal value, leading
  zeros allowed; \<^verbatim>\<open>ValueError\<close> when a character is not one of 0 to 9.\<close>

definition py_int :: "string \<Rightarrow> py_error + int" where
  "py_int s =
     (if s \<noteq> [] \<and> list_all is_decimal s
      then Inr (foldl (\<lambda>acc c. 10 * acc + digit_val c) 0 s)
      else Inl ValueError)"

definition upper_char :: "char \<Rightarrow> string" where
  "upper_char c = (let n = (of_char c :: nat) in
     if (97 \<le> n \<and> n \<le> 122) \<or> (224 \<le> n \<and> n \<le> 254 \<and> n \<noteq> 247) then [char_of (n - 32)]
     else if n = 223 then ''SS''
     else [c])"

definition py_upper :: "string \<Rightarrow> string" where
  "py_upper s = concat (map upper_char s)"

section \<open>Column names (openpyxl.utils)\<close>

text \<open>
  \<^verbatim>\<open>column_index_from_string\<close> and \<^verbatim>\<open>get_column_letter\<close> belong to the spreadsheet
  library. They are modelled after the library: a column name has one to three letters
  A to Z, read in base 26 with A = 1, so the valid indices are 1 to 18278 (ZZZ); every
  other argument raises \<^verbatim>\<open>ValueError\<close>.
\<close>

definition alpha_to_decimal :: "char \<Rightarrow> int option" where
  "alpha_to_decimal c = (let n = (of_char c :: nat) in
     if 65 \<le> n \<and> n \<le> 90 then Some (int n - 64) else None)"

fun col_sum :: "string \<Rightarrow> int \<Rightarrow> py_error + int" where
  "col_sum [] pw = Inr 0"
| "col_sum (letter # rest) pw =
     (case alpha_to_decimal letter of
        None \<Rightarrow> Inl ValueError
      | Some pos \<Rightarrow>
          (case col_sum rest (26 * pw) of
             Inl e \<Rightarrow> Inl e
           | Inr idx \<Rightarrow> Inr (pos * pw + idx)))"

definition column_index_from_string :: "string \<Rightarrow> py_error + int" where
  "column_index_from_string col =
     (if length col > 3 then Inl ValueError
      else case col_sum (rev (py_upper col)) 1 of
             Inl e \<Rightarrow> Inl e
           | Inr idx \<Rightarrow> if 0 < idx \<and> idx < 18279 then Inr idx else Inl ValueError)"

definition decimal_to_alpha :: "nat \<Rightarrow> char" where
  "decimal_to_alpha k = char_of (k + 64)"

function col_letters :: "nat \<Rightarrow> string \<Rightarrow> string" where
  "col_letters col_idx acc =
     (if col_idx = 0 then acc
      else if col_idx mod 26 = 0
        then col_letters (col_idx div 26 - 1) (CHR ''Z'' # acc)
        else col_letters (col_idx div 26) (decimal_to_alpha (col_idx mod 26) # acc))"
  by pat_completeness auto
termination
  by (relation "measure (\<lambda>(n, acc). n)") (auto intro: diff_less_mono)

definition get_column_letter :: "int \<Rightarrow> py_error + string" where
  "get_column_letter col_idx =
     (if 1 \<le> col_idx \<and> col_idx \<le> 18278 then Inr (col_letters (nat col_idx) [])
      else Inl ValueError)"

section \<open>The column-reference normalizer\<close>

text \<open>\<^verbatim>\<open>parse_col_arg\<close>, the same function in both programs.\<close>

definition parse_col_arg :: "string \<Rightarrow> py_error + int" where
  "parse_col_arg x0 =
     (let x = py_strip x0 in
      if py_isdigit x then
        (case py_int x of
           Inl e \<Rightarrow> Inl e
         | Inr val \<Rightarrow> if val < 1 then Inl ValueError else Inr val)
      else column_index_from_string (py_upper x))"

section \<open>Spreadsheets, documents and the file system\<close>

text \<open>
  A cell holds an optional value, an alignment and a border. A value is a text or a
  value of another kind (number, date, ...), whose textual representation \<^verbatim>\<open>str(val)\<close>
  is a parameter \<open>str_of\<close> of the exporter. A worksheet maps each coordinate
  (row, column) to its cell: \<^verbatim>\<open>ws.cell(row, column)\<close> returns the cell there and makes a
  fresh one where none was, so a coordinate never touched holds \<open>default_cell\<close>, with
  the library's default border (four sides without a style) and default alignment.
\<close>

record side =
  s_style :: "string option"
  s_color :: "string option"

record border =
  b_left :: "side option"
  b_right :: "side option"
  b_top :: "side option"
  b_bottom :: "side option"

record alignment =
  wrap_text :: "bool option"
  vertical :: "string option"

datatype 'a cell_value = Text string | Other 'a

record 'a cell =
  cval :: "'a cell_value option"
  cell_alignment :: alignment
  cell_border :: border

type_synonym 'a worksheet = "int \<times> int \<Rightarrow> 'a cell"

record 'a workbook =
  sheets :: "(string \<times> 'a worksheet) list"
  active :: nat

definition default_side :: side where
  "default_side = \<lparr>s_style = None, s_color = None\<rparr>"

definition default_border :: border where
  "default_border = \<lparr>b_left = Some default_side, b_right = Some default_side,
     b_top = Some default_side, b_bottom = Some default_side\<rparr>"

definition default_alignment :: alignment where
  "default_alignment = \<lparr>wrap_text = None, vertical = None\<rparr>"

definition default_cell :: "'a cell" where
  "default_cell = \<lparr>cval = None, cell_alignment = default_alignment,
     cell_border = default_border\<rparr>"

definition new_workbook :: "'a workbook" where
  "new_workbook = \<lparr>sheets = [(''Sheet'', \<lambda>rc. default_cell)], active = 0\<rparr>"

text \<open>
  A document is its tables, each a list of rows of cell texts, and the levels of its
  headings. Assigning \<^verbatim>\<open>cell.text\<close> makes the document library store a carriage
  return as a line break, which reads back as a line feed; every other character reads
  back as it was assigned (\<open>docx_text\<close>). Characters the library refuses are outside
  the model; fonts, table alignment and table style do not touch the cell texts and are
  left out.
\<close>

type_synonym table = "string list list"

record document =
  doc_headings :: "nat list"
  doc_tables :: "table list"

definition new_document :: document where
  "new_document = \<lparr>doc_headings = [], doc_tables = []\<rparr>"

text \<open>
  The file system: what each path holds, and whether a save to it succeeds. A path that
  exists and holds neither a workbook nor a document (a damaged file, a directory) is
  \<open>Garbage\<close>.
\<close>

datatype 'a disk_file = Xlsx "'a workbook" | Docx document | Garbage

record 'a world =
  files :: "string \<Rightarrow> 'a disk_file option"
  writable :: "string \<Rightarrow> bool"

definition path_exists :: "'a world \<Rightarrow> string \<Rightarrow> bool" where
  "path_exists w p = (files w p \<noteq> None)"

definition load_workbook :: "'a world \<Rightarrow> string \<Rightarrow> py_error + 'a workbook" where
  "load_workbook w p = (case files w p of Some (Xlsx wb) \<Rightarrow> Inr wb | _ \<Rightarrow> Inl OpenError)"

definition open_document :: "'a world \<Rightarrow> string \<Rightarrow> py_error + document" where
  "open_document w p = (case files w p of Some (Docx d) \<Rightarrow> Inr d | _ \<Rightarrow> Inl OpenError)"

definition save_file :: "'a world \<Rightarrow> string \<Rightarrow> 'a disk_file \<Rightarrow> py_error + 'a world" where
  "save_file w p f =
     (if writable w p then Inr (w\<lparr>files := (files w)(p \<mapsto> f)\<rparr>) else Inl SaveError)"

text \<open>The result of a run: the exit status passed to \<^verbatim>\<open>sys.exit\<close> (0 when \<^verbatim>\<open>main\<close>
  returns), or an exception that no handler catches, which ends the process with
  status 1.\<close>

datatype outcome = Exit int | Uncaught py_error

fun exit_status :: "outcome \<Rightarrow> int" where
  "exit_status (Exit n) = n"
| "exit_status (Uncaught e) = 1"

record range_args =
  sheet :: "string option"
  row_start :: int
  row_end :: int
  col_start :: string
  col_end :: string

record e2w_args = range_args +
  excel :: string
  word_out :: string

record w2e_args = range_args +
  word_in :: string
  table_index :: int
  excel_out :: string

text \<open>Truth value of \<^verbatim>\<open>args.sheet\<close>: absent and empty names are false.\<close>

definition truthy :: "string option \<Rightarrow> bool" where
  "truthy s = (case s of None \<Rightarrow> False | Some n \<Rightarrow> n \<noteq> [])"

fun sheet_index :: "(string \<times> 'w) list \<Rightarrow> string \<Rightarrow> nat option" where
  "sheet_index [] name = None"
| "sheet_index ((n, ws) # rest) name =
     (if n = name then Some 0 else map_option Suc (sheet_index rest name))"

text \<open>\<^verbatim>\<open>wb.active\<close>: the sheet at the active index, \<^verbatim>\<open>None\<close> when there is none.\<close>

definition wb_active :: "'a workbook \<Rightarrow> nat option" where
  "wb_active wb = (if active wb < length (sheets wb) then Some (active wb) else None)"

section \<open>Excel2Word: spreadsheet region to document table\<close>

text \<open>\<^verbatim>\<open>ws = wb[args.sheet] if args.sheet else wb.active\<close>, after \<^verbatim>\<open>load_workbook\<close>,
  both inside the \<^verbatim>\<open>try\<close>.\<close>

definition open_source ::
  "'a world \<Rightarrow> string \<Rightarrow> string option \<Rightarrow> py_error + 'a worksheet option" where
  "open_source w p name =
     (case load_workbook w p of
        Inl e \<Rightarrow> Inl e
      | Inr wb \<Rightarrow>
          if truthy name then
            (case sheet_index (sheets wb) (the name) of
               None \<Rightarrow> Inl KeyError
             | Some k \<Rightarrow> Inr (Some (snd (sheets wb ! k))))
          else Inr (map_option (\<lambda>k. snd (sheets wb ! k)) (wb_active wb)))"

definition cell_text :: "('a \<Rightarrow> string) \<Rightarrow> 'a cell_value option \<Rightarrow> string" where
  "cell_text str_of v =
     (case v of None \<Rightarrow> [] | Some (Text s) \<Rightarrow> s | Some (Other x) \<Rightarrow> str_of x)"

definition read_region ::
  "('a \<Rightarrow> string) \<Rightarrow> 'a worksheet \<Rightarrow> int \<Rightarrow> int \<Rightarrow> int \<Rightarrow> int \<Rightarrow> string list list" where
  "read_region str_of ws r1 r2 c1 c2 =
     map (\<lambda>r. map (\<lambda>c. cell_text str_of (cval (ws (r, c)))) [c1..c2]) [r1..r2]"

definition add_table :: "document \<Rightarrow> nat \<Rightarrow> nat \<Rightarrow> document" where
  "add_table doc nrows ncols =
     doc\<lparr>doc_tables := doc_tables doc @ [replicate nrows (replicate ncols [])]\<rparr>"

definition grid_at :: "string list list \<Rightarrow> nat \<Rightarrow> nat \<Rightarrow> py_error + string" where
  "grid_at data i j =
     (if i < length data \<and> j < length (data ! i) then Inr (data ! i ! j) else Inl IndexError)"

definition docx_text :: "string \<Rightarrow> string" where
  "docx_text s = map (\<lambda>c. if c = CHR 0x0D then CHR 0x0A else c) s"

definition set_cell_text :: "table \<Rightarrow> nat \<Rightarrow> nat \<Rightarrow> string \<Rightarrow> py_error + table" where
  "set_cell_text tbl i j s =
     (if i < length tbl \<and> j < length (tbl ! i)
      then Inr (tbl[i := (tbl ! i)[j := docx_text s]])
      else Inl IndexError)"

text \<open>The two nested loops over \<^verbatim>\<open>range(nrows)\<close> and \<^verbatim>\<open>range(ncols)\<close> visit the
  index pairs in row-major order, the order of \<open>List.product\<close>.\<close>

fun fill_table :: "(nat \<times> nat) list \<Rightarrow> string list list \<Rightarrow> table \<Rightarrow> py_error + table" where
  "fill_table [] data tbl = Inr tbl"
| "fill_table ((i, j) # rest) data tbl =
     (case grid_at data i j of
        Inl e \<Rightarrow> Inl e
      | Inr s \<Rightarrow>
          (case set_cell_text tbl i j s of
             Inl e \<Rightarrow> Inl e
           | Inr tbl' \<Rightarrow> fill_table rest data tbl'))"

definition build_document :: "int \<Rightarrow> int \<Rightarrow> string list list \<Rightarrow> py_error + document" where
  "build_document nrows ncols data =
     (let doc = new_document\<lparr>doc_headings := [1]\<rparr>;
          doc = add_table doc (nat nrows) (nat ncols);
          k = length (doc_tables doc) - 1
      in case fill_table (List.product [0..<nat nrows] [0..<nat ncols]) data (doc_tables doc ! k) of
           Inl e \<Rightarrow> Inl e
         | Inr tbl \<Rightarrow> Inr (doc\<lparr>doc_tables := (doc_tables doc)[k := tbl]\<rparr>))"

definition main_e2w :: "('a \<Rightarrow> string) \<Rightarrow> e2w_args \<Rightarrow> 'a world \<Rightarrow> outcome \<times> 'a world" where
  "main_e2w str_of args w =
     (if \<not> path_exists w (excel args) then (Exit 1, w)
      else case parse_col_arg (col_start args) of
        Inl e \<Rightarrow> (Exit 1, w)
      | Inr c1 \<Rightarrow>
      case parse_col_arg (col_end args) of
        Inl e \<Rightarrow> (Exit 1, w)
      | Inr c2 \<Rightarrow>
      let r1 = row_start args; r2 = row_end args in
      if r1 < 1 \<or> r2 < 1 then (Exit 1, w)
      else if c1 > c2 \<or> r1 > r2 then (Exit 1, w)
      else case open_source w (excel args) (sheet args) of
        Inl e \<Rightarrow> (Exit 1, w)
      | Inr None \<Rightarrow> (Uncaught AttributeError, w)
      | Inr (Some ws) \<Rightarrow>
      let nrows = r2 - r1 + 1; ncols = c2 - c1 + 1;
          data = read_region str_of ws r1 r2 c1 c2
      in case build_document nrows ncols data of
        Inl e \<Rightarrow> (Exit 1, w)
      | Inr doc \<Rightarrow>
      case save_file w (word_out args) (Docx doc) of
        Inl e \<Rightarrow> (Exit 1, w)
      | Inr w' \<Rightarrow> (Exit 0, w'))"

section \<open>Word2Excel: document table to spreadsheet region\<close>

definition replace_nbsp :: "string \<Rightarrow> string" where
  "replace_nbsp s = map (\<lambda>c. if c = char_of (160 :: nat) then CHR '' '' else c) s"

text \<open>\<^verbatim>\<open>str.split()\<close> without a separator: skip whitespace, take the word up to the next
  whitespace, repeat.\<close>

function py_split :: "string \<Rightarrow> string list" where
  "py_split s =
     (case dropWhile py_isspace s of
        [] \<Rightarrow> []
      | c # cs \<Rightarrow>
          takeWhile (\<lambda>x. \<not> py_isspace x) (c # cs)
            # py_split (dropWhile (\<lambda>x. \<not> py_isspace x) (c # cs)))"
  by pat_completeness auto
termination
proof (relation "measure length")
  fix s :: string and c cs
  assume a: "dropWhile py_isspace s = c # cs"
  then have "\<not> py_isspace c"
    by (metis hd_dropWhile list.sel(1) list.distinct(1))
  then have "length (dropWhile (\<lambda>x. \<not> py_isspace x) (c # cs)) \<le> length cs"
    by (simp add: length_dropWhile_le)
  also have "length cs < length (dropWhile py_isspace s)"
    using a by simp
  also have "\<dots> \<le> length s"
    by (rule length_dropWhile_le)
  finally show "(dropWhile (\<lambda>x. \<not> py_isspace x) (c # cs), s) \<in> measure length"
    by simp
qed simp

declare py_split.simps [simp del]

fun py_join :: "string \<Rightarrow> string list \<Rightarrow> string" where
  "py_join sep [] = []"
| "py_join sep [x] = x"
| "py_join sep (x # y # ys) = x @ sep @ py_join sep (y # ys)"

definition clean_text :: "string \<Rightarrow> string" where
  "clean_text txt = py_join '' '' (py_split (replace_nbsp txt))"

definition read_table_from_word ::
  "'a world \<Rightarrow> string \<Rightarrow> int \<Rightarrow> py_error + string list list" where
  "read_table_from_word w word_path idx =
     (case open_document w word_path of
        Inl e \<Rightarrow> Inl e
      | Inr doc \<Rightarrow>
          if idx < 0 \<or> idx \<ge> int (length (doc_tables doc)) then Inl IndexError
          else Inr (map (map clean_text) (doc_tables doc ! nat idx)))"

definition ensure_workbook :: "'a world \<Rightarrow> string \<Rightarrow> 'a workbook" where
  "ensure_workbook w p =
     (if path_exists w p then
        (case load_workbook w p of Inr wb \<Rightarrow> wb | Inl e \<Rightarrow> new_workbook)
      else new_workbook)"

text \<open>\<^verbatim>\<open>max(len(r) for r in table_data)\<close> raises \<^verbatim>\<open>ValueError\<close> on an empty
  sequence.\<close>

definition max_row_len :: "string list list \<Rightarrow> py_error + int" where
  "max_row_len table_data =
     (case table_data of
        [] \<Rightarrow> Inl ValueError
      | r # rs \<Rightarrow> Inr (int (fold (\<lambda>x m. max (length x) m) rs (length r))))"

definition select_sheet :: "'a workbook \<Rightarrow> string option \<Rightarrow> nat option" where
  "select_sheet wb name =
     (if truthy name \<and> the name \<in> set (map fst (sheets wb))
      then sheet_index (sheets wb) (the name) else wb_active wb)"

definition align :: alignment where
  "align = \<lparr>wrap_text = Some True, vertical = Some ''top''\<rparr>"

definition thin :: side where
  "thin = \<lparr>s_style = Some ''thin'', s_color = Some ''000000''\<rparr>"

definition border_style :: border where
  "border_style = \<lparr>b_left = Some thin, b_right = Some thin, b_top = Some thin,
     b_bottom = Some thin\<rparr>"

text \<open>The body of the first loop: \<^verbatim>\<open>ws.cell(row, column, value=val)\<close>, then the
  alignment and the border.\<close>

definition write_cell :: "'a worksheet \<Rightarrow> int \<Rightarrow> int \<Rightarrow> string \<Rightarrow> 'a worksheet" where
  "write_cell ws r c val =
     ws((r, c) := (ws (r, c))\<lparr>cval := Some (Text val), cell_alignment := align,
                              cell_border := border_style\<rparr>)"

fun write_cells ::
  "(nat \<times> nat) list \<Rightarrow> string list list \<Rightarrow> int \<Rightarrow> int \<Rightarrow> 'a worksheet
     \<Rightarrow> py_error + 'a worksheet" where
  "write_cells [] table_data r1 c1 ws = Inr ws"
| "write_cells ((i, j) # rest) table_data r1 c1 ws =
     (if i < length table_data then
        (let val = (if j < length (table_data ! i) then table_data ! i ! j else [])
         in write_cells rest table_data r1 c1 (write_cell ws (r1 + int i) (c1 + int j) val))
      else Inl IndexError)"

text \<open>The body of the second loop. \<^verbatim>\<open>cell.border\<close> is never \<^verbatim>\<open>None\<close>; the border is
  set where the left side of the cell's border is \<^verbatim>\<open>None\<close>.\<close>

definition format_cell :: "'a worksheet \<Rightarrow> int \<times> int \<Rightarrow> 'a worksheet" where
  "format_cell ws rc =
     (let cell = ws rc;
          cell = (if b_left (cell_border cell) = None
                  then cell\<lparr>cell_border := border_style\<rparr> else cell)
      in ws(rc := cell\<lparr>cell_alignment := align\<rparr>))"

definition format_cells :: "(int \<times> int) list \<Rightarrow> 'a worksheet \<Rightarrow> 'a worksheet" where
  "format_cells rcs ws = foldl format_cell ws rcs"

text \<open>\<^verbatim>\<open>main\<close> of Word2Excel, in three stages: \<open>write_range\<close> is the two loops,
  \<open>save_result\<close> the range name and the save, \<open>copy_table\<close> everything after the
  table was read.\<close>

definition write_range ::
  "string list list \<Rightarrow> int \<Rightarrow> int \<Rightarrow> int \<Rightarrow> int \<Rightarrow> int \<Rightarrow> 'a worksheet
     \<Rightarrow> py_error + 'a worksheet" where
  "write_range table_data cols_word r1 r2 c1 c2 ws =
     (let rows_word = int (length table_data);
          nrows_target = r2 - r1 + 1;
          ncols_target = c2 - c1 + 1;
          rows_to_write = min rows_word nrows_target;
          cols_to_write = min cols_word ncols_target
      in case write_cells (List.product [0..<nat rows_to_write] [0..<nat cols_to_write])
                table_data r1 c1 ws of
           Inl e \<Rightarrow> Inl e
         | Inr ws1 \<Rightarrow> Inr (format_cells (List.product [r1..r2] [c1..c2]) ws1))"

definition save_result ::
  "'a world \<Rightarrow> string \<Rightarrow> 'a workbook \<Rightarrow> int \<Rightarrow> int \<Rightarrow> outcome \<times> 'a world" where
  "save_result w p wb c1 c2 =
     (case get_column_letter c1 of
        Inl e \<Rightarrow> (Uncaught e, w)
      | Inr l1 \<Rightarrow>
      case get_column_letter c2 of
        Inl e \<Rightarrow> (Uncaught e, w)
      | Inr l2 \<Rightarrow>
      case save_file w p (Xlsx wb) of
        Inl e \<Rightarrow> (Uncaught e, w)
      | Inr w' \<Rightarrow> (Exit 0, w'))"

definition copy_table ::
  "w2e_args \<Rightarrow> 'a world \<Rightarrow> int \<Rightarrow> int \<Rightarrow> int \<Rightarrow> int \<Rightarrow> string list list
     \<Rightarrow> outcome \<times> 'a world" where
  "copy_table args w r1 r2 c1 c2 table_data =
     (case max_row_len table_data of
        Inl e \<Rightarrow> (Uncaught e, w)
      | Inr cols_word \<Rightarrow>
      let wb = ensure_workbook w (excel_out args) in
      case select_sheet wb (sheet args) of
        None \<Rightarrow> (Uncaught AttributeError, w)
      | Some k \<Rightarrow>
      case write_range table_data cols_word r1 r2 c1 c2 (snd (sheets wb ! k)) of
        Inl e \<Rightarrow> (Uncaught e, w)
      | Inr ws2 \<Rightarrow>
          save_result w (excel_out args)
            (wb\<lparr>sheets := (sheets wb)[k := (fst (sheets wb ! k), ws2)]\<rparr>) c1 c2)"

definition main_w2e :: "w2e_args \<Rightarrow> 'a world \<Rightarrow> outcome \<times> 'a world" where
  "main_w2e args w =
     (if \<not> path_exists w (word_in args) then (Exit 1, w)
      else case parse_col_arg (col_start args) of
        Inl e \<Rightarrow> (Exit 1, w)
      | Inr c1 \<Rightarrow>
      case parse_col_arg (col_end args) of
        Inl e \<Rightarrow> (Exit 1, w)
      | Inr c2 \<Rightarrow>
      let r1 = row_start args; r2 = row_end args in
      if r1 < 1 \<or> r2 < r1 \<or> c1 < 1 \<or> c2 < c1 then (Exit 1, w)
      else case read_table_from_word w (word_in args) (table_index args) of
        Inl e \<Rightarrow> (Exit 1, w)
      | Inr table_data \<Rightarrow> copy_table args w r1 r2 c1 c2 table_data)"

section \<open>Notions used in the statements\<close>


definition is_capital :: "char \<Rightarrow> bool" where
  "is_capital c = (let n = (of_char c :: nat) in 65 \<le> n \<and> n \<le> 90)"






text \<open>The range of an invocation whose column tokens normalize is invalid when it is
  out of order or has a value below 1.\<close>

definition invalid_range :: "'z range_args_scheme \<Rightarrow> bool" where
  "invalid_range a =
     (case parse_col_arg (col_start a) of
        Inl e \<Rightarrow> False
      | Inr c1 \<Rightarrow>
          (case parse_col_arg (col_end a) of
             Inl e \<Rightarrow> False
           | Inr c2 \<Rightarrow>
               row_start a > row_end a \<or> c1 > c2 \<or> row_start a < 1 \<or> row_end a < 1
                 \<or> c1 < 1 \<or> c2 < 1))"

text \<open>Sample invocations and a sample file system for the closed instances.\<close>

definition demo_e2w_args :: e2w_args where
  "demo_e2w_args = \<lparr>sheet = None, row_start = 5, row_end = 2, col_start = ''A'',
     col_end = ''B'', excel = ''in.xlsx'', word_out = ''out.docx''\<rparr>"

definition demo_w2e_args :: w2e_args where
  "demo_w2e_args = \<lparr>sheet = None, row_start = 1, row_end = 2, col_start = ''D'',
     col_end = ''B'', word_in = ''in.docx'', table_index = 0, excel_out = ''out.xlsx''\<rparr>"

definition demo_world :: "unit world" where
  "demo_world = \<lparr>files = [''in.xlsx'' \<mapsto> Xlsx new_workbook,
       ''in.docx'' \<mapsto> Docx \<lparr>doc_headings = [], doc_tables = [[[''x'']]]\<rparr>],
     writable = (\<lambda>p. True)\<rparr>"

definition demo_doc_world :: "document \<Rightarrow> unit world" where
  "demo_doc_world doc = \<lparr>files = [''in.docx'' \<mapsto> Docx doc], writable = (\<lambda>p. True)\<rparr>"

definition demo_import_args :: "int \<Rightarrow> w2e_args" where
  "demo_import_args idx = \<lparr>sheet = None, row_start = 1, row_end = 2, col_start = ''A'',
     col_end = ''D'', word_in = ''in.docx'', table_index = idx, excel_out = ''out.xlsx''\<rparr>"

text \<open>The text of a cell as the specification words it: the non-breaking space counts as
  whitespace, every maximal run of whitespace becomes one space, and the whitespace at
  both ends is removed.\<close>

definition is_blank :: "char \<Rightarrow> bool" where
  "is_blank c = (py_isspace c \<or> c = char_of (160 :: nat))"

function collapse_blanks :: "string \<Rightarrow> string" where
  "collapse_blanks [] = []"
| "collapse_blanks (c # cs) =
     (if is_blank c then CHR '' '' # collapse_blanks (dropWhile is_blank cs)
      else c # collapse_blanks cs)"
  by pat_completeness auto
termination
  by (relation "measure length") (auto simp: length_dropWhile_le less_Suc_eq_le)

definition trim_blanks :: "string \<Rightarrow> string" where
  "trim_blanks s = rev (dropWhile is_blank (rev (dropWhile is_blank s)))"

definition normalized_text :: "string \<Rightarrow> string" where
  "normalized_text t = trim_blanks (collapse_blanks t)"

text \<open>A sample cell text: blanks at both ends, a non-breaking space, a tab and a line
  break.\<close>

definition messy_text :: string where
  "messy_text = [CHR '' '', CHR ''a'', CHR 0xA0, CHR 0x09, CHR '' '', CHR ''b'', CHR ''c'', CHR 0x0A]"

text \<open>The export scenario of the specification: values a, b, c in a region of three rows
  and two columns at rows 2 to 4 and columns C to D; the other three cells are absent.\<close>

definition export_sheet :: "bool worksheet" where
  "export_sheet = (\<lambda>rc. default_cell)
     ((2, 3) := default_cell\<lparr>cval := Some (Text ''a'')\<rparr>,
      (2, 4) := default_cell\<lparr>cval := Some (Text ''b'')\<rparr>,
      (3, 3) := default_cell\<lparr>cval := Some (Text ''c'')\<rparr>)"

definition export_world :: "bool world" where
  "export_world = \<lparr>files = [''in.xlsx'' \<mapsto> Xlsx \<lparr>sheets = [(''Sheet1'', export_sheet)], active = 0\<rparr>],
     writable = (\<lambda>p. True)\<rparr>"

definition export_args :: e2w_args where
  "export_args = \<lparr>sheet = Some ''Sheet1'', row_start = 2, row_end = 4, col_start = ''C'',
     col_end = ''D'', excel = ''in.xlsx'', word_out = ''out.docx''\<rparr>"

definition str_bool :: "bool \<Rightarrow> string" where
  "str_bool b = (if b then ''True'' else ''False'')"

text \<open>Two grids of the same shape: as many rows, and rows of the same lengths.\<close>

definition same_shape :: "'a list list \<Rightarrow> 'b list list \<Rightarrow> bool" where
  "same_shape xs ys = (length xs = length ys \<and> (\<forall>i < length ys. length (xs ! i) = length (ys ! i)))"

text \<open>The effect of the two loops of the importer on one cell. \<open>entry_at\<close> is the value
  copied for table position (i, j), the empty string where row i is too short;
  \<open>copied_cell\<close> is a cell of the copied extent and \<open>formatted_cell\<close> what the second
  loop makes of a cell.\<close>

definition entry_at :: "string list list \<Rightarrow> nat \<Rightarrow> nat \<Rightarrow> string" where
  "entry_at table_data i j = (if j < length (table_data ! i) then table_data ! i ! j else [])"

definition copied_cell :: "string \<Rightarrow> 'a cell" where
  "copied_cell val = \<lparr>cval = Some (Text val), cell_alignment = align,
     cell_border = border_style\<rparr>"

definition formatted_cell :: "'a cell \<Rightarrow> 'a cell" where
  "formatted_cell cell = cell\<lparr>cell_alignment := align,
     cell_border := (if b_left (cell_border cell) = None then border_style
                     else cell_border cell)\<rparr>"

definition rows_copied :: "string list list \<Rightarrow> int \<Rightarrow> int \<Rightarrow> int" where
  "rows_copied table_data r1 r2 = min (int (length table_data)) (r2 - r1 + 1)"

definition cols_copied :: "string list list \<Rightarrow> int \<Rightarrow> int \<Rightarrow> int" where
  "cols_copied table_data c1 c2 = min (int (Max (set (map length table_data)))) (c2 - c1 + 1)"

definition in_extent :: "string list list \<Rightarrow> int \<Rightarrow> int \<Rightarrow> int \<Rightarrow> int \<Rightarrow> int \<times> int \<Rightarrow> bool" where
  "in_extent table_data r1 r2 c1 c2 rc =
     (r1 \<le> fst rc \<and> fst rc < r1 + rows_copied table_data r1 r2
      \<and> c1 \<le> snd rc \<and> snd rc < c1 + cols_copied table_data c1 c2)"

definition in_range :: "int \<Rightarrow> int \<Rightarrow> int \<Rightarrow> int \<Rightarrow> int \<times> int \<Rightarrow> bool" where
  "in_range r1 r2 c1 c2 rc = (r1 \<le> fst rc \<and> fst rc \<le> r2 \<and> c1 \<le> snd rc \<and> snd rc \<le> c2)"

definition imported_sheet ::
  "string list list \<Rightarrow> int \<Rightarrow> int \<Rightarrow> int \<Rightarrow> int \<Rightarrow> 'a worksheet \<Rightarrow> 'a worksheet" where
  "imported_sheet table_data r1 r2 c1 c2 ws rc =
     (if in_extent table_data r1 r2 c1 c2 rc
      then copied_cell (entry_at table_data (nat (fst rc - r1)) (nat (snd rc - c1)))
      else if in_range r1 r2 c1 c2 rc then formatted_cell (ws rc)
      else ws rc)"

text \<open>The conditions under which an import runs to its end: the table was read and has
  a row, the range is valid with columns the library can name, a sheet is selected and
  the destination can be written. \<open>result_cell\<close> reads a cell of sheet k of the
  workbook a run left at a path.\<close>

definition import_ready ::
  "w2e_args \<Rightarrow> 'a world \<Rightarrow> string list list \<Rightarrow> int \<Rightarrow> int \<Rightarrow> nat \<Rightarrow> bool" where
  "import_ready b w table_data c1 c2 k =
     (read_table_from_word w (word_in b) (table_index b) = Inr table_data
      \<and> table_data \<noteq> []
      \<and> parse_col_arg (col_start b) = Inr c1 \<and> parse_col_arg (col_end b) = Inr c2
      \<and> 1 \<le> row_start b \<and> row_start b \<le> row_end b \<and> c1 \<le> c2 \<and> c2 \<le> 18278
      \<and> select_sheet (ensure_workbook w (excel_out b)) (sheet b) = Some k
      \<and> writable w (excel_out b))"

definition result_cell ::
  "outcome \<times> 'a world \<Rightarrow> string \<Rightarrow> nat \<Rightarrow> int \<times> int \<Rightarrow> 'a cell option" where
  "result_cell res p k rc =
     (case files (snd res) p of
        Some (Xlsx wb) \<Rightarrow> if k < length (sheets wb) then Some (snd (sheets wb ! k) rc) else None
      | _ \<Rightarrow> None)"

text \<open>The import scenario of the specification: a table with rows x, y, z and 1, 2, and
  the target range rows 1 to 2, columns A to D (\<open>demo_import_args 0\<close>). The
  destination is absent in \<open>fresh_world\<close>, damaged in \<open>garbage_world\<close>, and in
  \<open>old_world\<close> a workbook in which D1 holds a value.\<close>

definition scenario_table :: "string list list" where
  "scenario_table = [[''x'', ''y'', ''z''], [''1'', ''2'']]"

definition scenario_doc :: document where
  "scenario_doc = \<lparr>doc_headings = [], doc_tables = [scenario_table]\<rparr>"

definition old_sheet :: "unit worksheet" where
  "old_sheet = (\<lambda>rc. default_cell)((1, 4) := default_cell\<lparr>cval := Some (Text ''old'')\<rparr>)"

definition fresh_world :: "unit world" where
  "fresh_world = \<lparr>files = [''in.docx'' \<mapsto> Docx scenario_doc], writable = (\<lambda>p. True)\<rparr>"

definition garbage_world :: "unit world" where
  "garbage_world = \<lparr>files = [''in.docx'' \<mapsto> Docx scenario_doc, ''out.xlsx'' \<mapsto> Garbage],
     writable = (\<lambda>p. True)\<rparr>"

definition old_world :: "unit world" where
  "old_world = \<lparr>files = [''in.docx'' \<mapsto> Docx scenario_doc,
       ''out.xlsx'' \<mapsto> Xlsx \<lparr>sheets = [(''Sheet'', old_sheet)], active = 0\<rparr>],
     writable = (\<lambda>p. True)\<rparr>"

text \<open>A round trip whose source cell A1 holds a text with a blank in front: the region
  A1 is exported to a document and imported back to A1 of a new workbook.\<close>

definition trip_world :: "unit world" where
  "trip_world = \<lparr>files = [''in.xlsx'' \<mapsto>
       Xlsx \<lparr>sheets = [(''Sheet1'', (\<lambda>rc. default_cell)
                  ((1, 1) := default_cell\<lparr>cval := Some (Text '' a'')\<rparr>))],
             active = 0\<rparr>],
     writable = (\<lambda>p. True)\<rparr>"

definition trip_export_args :: e2w_args where
  "trip_export_args = \<lparr>sheet = None, row_start = 1, row_end = 1, col_start = ''A'',
     col_end = ''A'', excel = ''in.xlsx'', word_out = ''out.docx''\<rparr>"

definition trip_import_args :: w2e_args where
  "trip_import_args = \<lparr>sheet = None, row_start = 1, row_end = 1, col_start = ''A'',
     col_end = ''A'', word_in = ''out.docx'', table_index = 0, excel_out = ''back.xlsx''\<rparr>"

text \<open>An export whose source cell A1 holds a text with a carriage return.\<close>

definition cr_world :: "unit world" where
  "cr_world = \<lparr>files = [''in.xlsx'' \<mapsto>
       Xlsx \<lparr>sheets = [(''Sheet1'', (\<lambda>rc. default_cell)
                  ((1, 1) := default_cell\<lparr>cval := Some (Text [CHR ''a'', CHR 0x0D, CHR ''b''])\<rparr>))],
             active = 0\<rparr>],
     writable = (\<lambda>p. True)\<rparr>"

section \<open>The column-reference normalizer: proofs\<close>









lemma upper_char_capital: "is_capital c \<Longrightarrow> upper_char c = [c]"
  by (auto simp: is_capital_def upper_char_def Let_def)

lemma py_upper_capitals: "list_all is_capital s \<Longrightarrow> py_upper s = s"
  by (induction s) (simp_all add: py_upper_def upper_char_capital)




























section \<open>Range validation: proofs\<close>

lemma column_index_positive: "column_index_from_string s = Inr c \<Longrightarrow> 1 \<le> c \<and> c \<le> 18278"
  by (auto simp: column_index_from_string_def split: if_splits sum.splits)

lemma parse_col_arg_positive: "parse_col_arg t = Inr c \<Longrightarrow> 1 \<le> c"
  by (auto simp: parse_col_arg_def Let_def split: if_splits sum.splits
      dest: column_index_positive)

text \<open>
  Claim C3. An invocation of either program whose range is invalid (row-start above
  row-end, col-start above col-end, or one of the four values below 1) ends with exit
  status 1 and leaves the file system as it was: nothing is written.
\<close>

theorem invalid_range_exits:
  "(invalid_range a \<longrightarrow> main_e2w str_of a w = (Exit 1, w))
   \<and> (invalid_range b \<longrightarrow> main_w2e b v = (Exit 1, v))"
proof (intro conjI impI)
  assume inv: "invalid_range a"
  show "main_e2w str_of a w = (Exit 1, w)"
  proof (cases "parse_col_arg (col_start a)")
    case (Inl e)
    then show ?thesis by (simp add: main_e2w_def)
  next
    case c1: (Inr c1)
    show ?thesis
    proof (cases "parse_col_arg (col_end a)")
      case (Inl e)
      with c1 show ?thesis by (simp add: main_e2w_def)
    next
      case c2: (Inr c2)
      from inv c1 c2 parse_col_arg_positive[OF c1] parse_col_arg_positive[OF c2]
      have "row_start a < 1 \<or> row_end a < 1 \<or> c1 > c2 \<or> row_start a > row_end a"
        by (auto simp: invalid_range_def)
      with c1 c2 show ?thesis by (auto simp: main_e2w_def Let_def)
    qed
  qed
next
  assume inv: "invalid_range b"
  show "main_w2e b v = (Exit 1, v)"
  proof (cases "parse_col_arg (col_start b)")
    case (Inl e)
    then show ?thesis by (simp add: main_w2e_def)
  next
    case c1: (Inr c1)
    show ?thesis
    proof (cases "parse_col_arg (col_end b)")
      case (Inl e)
      with c1 show ?thesis by (simp add: main_w2e_def)
    next
      case c2: (Inr c2)
      from inv c1 c2
      have "row_start b < 1 \<or> row_end b < row_start b \<or> c1 < 1 \<or> c2 < c1"
        by (auto simp: invalid_range_def)
      with c1 c2 show ?thesis by (auto simp: main_w2e_def Let_def)
    qed
  qed
qed

theorem invalid_range_exits_witness:
  "invalid_range demo_e2w_args \<and> invalid_range demo_w2e_args
   \<and> main_e2w (\<lambda>u. ''()'') demo_e2w_args demo_world = (Exit 1, demo_world)
   \<and> main_w2e demo_w2e_args demo_world = (Exit 1, demo_world)"
proof -
  have p: "parse_col_arg ''A'' = Inr 1" "parse_col_arg ''B'' = Inr 2" "parse_col_arg ''D'' = Inr 4"
    by code_simp+
  have a: "invalid_range demo_e2w_args"
    by (simp add: invalid_range_def demo_e2w_args_def p)
  have b: "invalid_range demo_w2e_args"
    by (simp add: invalid_range_def demo_w2e_args_def p)
  show ?thesis
    using invalid_range_exits[of demo_e2w_args "\<lambda>u. ''()''" demo_world demo_w2e_args demo_world] a b
    by simp
qed

section \<open>Reading the table: proofs\<close>

lemma main_w2e_valid:
  assumes "path_exists w (word_in b)"
    and "parse_col_arg (col_start b) = Inr c1" and "parse_col_arg (col_end b) = Inr c2"
    and "1 \<le> row_start b" and "row_start b \<le> row_end b" and "c1 \<le> c2"
  shows "main_w2e b w =
     (case read_table_from_word w (word_in b) (table_index b) of
        Inl e \<Rightarrow> (Exit 1, w)
      | Inr table_data \<Rightarrow> copy_table b w (row_start b) (row_end b) c1 c2 table_data)"
  using assms parse_col_arg_positive[OF assms(2)]
  by (simp add: main_w2e_def Let_def)

lemma max_row_len_Max:
  "table_data \<noteq> [] \<Longrightarrow> max_row_len table_data = Inr (int (Max (set (map length table_data))))"
proof -
  have "fold (\<lambda>x m. max (length x) m) rs a = Max (insert a (set (map length rs)))"
    for rs :: "string list list" and a
  proof (induction rs arbitrary: a)
    case Nil
    then show ?case by simp
  next
    case (Cons r rs)
    have "Max (insert (max (length r) a) (length ` set rs))
        = Max (insert a (insert (length r) (length ` set rs)))"
      by (cases "set rs = {}") (simp_all add: max.commute max.assoc max.left_commute)
    with Cons show ?case by simp
  qed
  moreover assume "table_data \<noteq> []"
  ultimately show ?thesis
    by (cases table_data) (simp_all add: max_row_len_def)
qed

text \<open>
  Claim C8. Once the document is open, reading the table raises the table-index error
  exactly when the index is outside 0 .. tableCount - 1, and the run then ends with exit
  status 1 and nothing written; for an index inside, the table read is the cleaned text
  of the selected table and the run goes on with it.
\<close>

theorem table_index_checked:
  assumes "files w (word_in b) = Some (Docx doc)"
    and "parse_col_arg (col_start b) = Inr c1" and "parse_col_arg (col_end b) = Inr c2"
    and "1 \<le> row_start b" and "row_start b \<le> row_end b" and "c1 \<le> c2"
  shows "(read_table_from_word w (word_in b) (table_index b) = Inl IndexError
            \<longleftrightarrow> table_index b < 0 \<or> int (length (doc_tables doc)) - 1 < table_index b)
       \<and> main_w2e b w =
           (if table_index b < 0 \<or> int (length (doc_tables doc)) - 1 < table_index b
            then (Exit 1, w)
            else copy_table b w (row_start b) (row_end b) c1 c2
                   (map (map clean_text) (doc_tables doc ! nat (table_index b))))"
proof -
  have ex: "path_exists w (word_in b)"
    using assms(1) by (simp add: path_exists_def)
  have rd: "read_table_from_word w (word_in b) (table_index b) =
      (if table_index b < 0 \<or> int (length (doc_tables doc)) - 1 < table_index b
       then Inl IndexError
       else Inr (map (map clean_text) (doc_tables doc ! nat (table_index b))))"
    using assms(1) by (auto simp: read_table_from_word_def open_document_def)
  show ?thesis
    unfolding main_w2e_valid[OF ex assms(2-6)] rd by simp
qed

theorem table_index_checked_witness:
  "read_table_from_word (demo_doc_world \<lparr>doc_headings = [], doc_tables = [[[''x'']]]\<rparr>)
       ''in.docx'' 1 = Inl IndexError
   \<and> main_w2e (demo_import_args 1) (demo_doc_world \<lparr>doc_headings = [], doc_tables = [[[''x'']]]\<rparr>)
       = (Exit 1, demo_doc_world \<lparr>doc_headings = [], doc_tables = [[[''x'']]]\<rparr>)
   \<and> read_table_from_word (demo_doc_world \<lparr>doc_headings = [], doc_tables = [[[''x'']]]\<rparr>)
       ''in.docx'' 0 \<noteq> Inl IndexError"
proof -
  let ?doc = "\<lparr>doc_headings = [], doc_tables = [[[''x'']]]\<rparr>"
  have p: "parse_col_arg ''A'' = Inr 1" "parse_col_arg ''D'' = Inr 4"
    by code_simp+
  have f: "files (demo_doc_world ?doc) (word_in (demo_import_args i)) = Some (Docx ?doc)" for i
    by (simp add: demo_doc_world_def demo_import_args_def)
  have a: "parse_col_arg (col_start (demo_import_args i)) = Inr 1"
    "parse_col_arg (col_end (demo_import_args i)) = Inr 4"
    "1 \<le> row_start (demo_import_args i)"
    "row_start (demo_import_args i) \<le> row_end (demo_import_args i)" for i
    by (simp_all add: demo_import_args_def p)
  have "(1::int) \<le> 4" by simp
  note t1 = table_index_checked[OF f a this, of 1]
  note t0 = table_index_checked[OF f a \<open>(1::int) \<le> 4\<close>, of 0]
  have w: "word_in (demo_import_args i) = ''in.docx''" "table_index (demo_import_args i) = i" for i
    by (simp_all add: demo_import_args_def)
  from t1 t0 show ?thesis
    by (simp add: w)
qed

text \<open>
  Claim C10. The grid width, the maximum row length, has a value exactly when the table
  has a row, and then it is that maximum; on a table without rows it raises outside any
  handler, the run ends there with nothing written, and so a run that ends with exit
  status 0 has read a table with at least one row.
\<close>

theorem empty_table_raises:
  "(max_row_len table_data = Inl ValueError \<longleftrightarrow> table_data = [])
   \<and> (table_data \<noteq> [] \<longrightarrow>
        max_row_len table_data = Inr (int (Max (set (map length table_data)))))
   \<and> copy_table b w r1 r2 c1 c2 [] = (Uncaught ValueError, w)
   \<and> (fst (main_w2e b w) = Exit 0 \<longrightarrow>
        (\<exists>row rows. read_table_from_word w (word_in b) (table_index b) = Inr (row # rows)))"
proof -
  have 1: "max_row_len table_data = Inl ValueError \<longleftrightarrow> table_data = []"
    by (cases table_data) (simp_all add: max_row_len_def)
  have 2: "copy_table b w r1 r2 c1 c2 [] = (Uncaught ValueError, w)" for r1 r2 c1 c2
    by (simp add: copy_table_def max_row_len_def)
  have 3: "\<exists>row rows. read_table_from_word w (word_in b) (table_index b) = Inr (row # rows)"
    if ok: "fst (main_w2e b w) = Exit 0"
  proof (cases "read_table_from_word w (word_in b) (table_index b)")
    case (Inl e)
    with ok show ?thesis
      by (auto simp: main_w2e_def Let_def split: if_splits sum.splits)
  next
    case (Inr td)
    show ?thesis
    proof (cases td)
      case Nil
      with Inr ok 2 show ?thesis
        by (auto simp: main_w2e_def Let_def split: if_splits sum.splits)
    next
      case (Cons row rows)
      with Inr show ?thesis by simp
    qed
  qed
  from 1 2 3 max_row_len_Max show ?thesis by blast
qed

theorem empty_table_raises_witness:
  "max_row_len [[''x'', ''y'', ''z''], [''1'', ''2'']] = Inr 3
   \<and> main_w2e (demo_import_args 0) (demo_doc_world \<lparr>doc_headings = [], doc_tables = [[]]\<rparr>)
       = (Uncaught ValueError, demo_doc_world \<lparr>doc_headings = [], doc_tables = [[]]\<rparr>)"
proof -
  let ?doc = "\<lparr>doc_headings = [], doc_tables = [[]]\<rparr>"
  have p: "parse_col_arg ''A'' = Inr 1" "parse_col_arg ''D'' = Inr 4"
    by code_simp+
  have m: "Max (set (map length [[''x'', ''y'', ''z''], [''1'', ''2'']])) = 3"
    by simp
  note t = empty_table_raises[where table_data = "[[''x'', ''y'', ''z''], [''1'', ''2'']]"
      and b = "demo_import_args 0" and w = "demo_doc_world ?doc"
      and ?r1.0 = 1 and ?r2.0 = 2 and ?c1.0 = 1 and ?c2.0 = 4]
  have 1: "max_row_len [[''x'', ''y'', ''z''], [''1'', ''2'']] = Inr 3"
    using t m by simp
  have "main_w2e (demo_import_args 0) (demo_doc_world ?doc)
      = copy_table (demo_import_args 0) (demo_doc_world ?doc) 1 2 1 4 []"
    by (simp add: main_w2e_def demo_import_args_def demo_doc_world_def p path_exists_def
        read_table_from_word_def open_document_def)
  also have "\<dots> = (Uncaught ValueError, demo_doc_world ?doc)"
    using t by simp
  finally show ?thesis using 1 by simp
qed

section \<open>Cleaning the cell text: proofs\<close>

lemma is_blank_isspace: "is_blank = py_isspace"
  by (auto simp: is_blank_def py_isspace_def fun_eq_iff)

lemma space_isspace: "py_isspace CHR '' ''"
  by (simp add: py_isspace_def)

lemma py_split_Nil:
  assumes "dropWhile py_isspace s = []"
  shows "py_split s = []"
  unfolding py_split.simps[of s] assms by simp

lemma py_split_Cons:
  assumes "dropWhile py_isspace s = c # cs"
  shows "py_split s = takeWhile (\<lambda>x. \<not> py_isspace x) (c # cs)
                    # py_split (dropWhile (\<lambda>x. \<not> py_isspace x) (c # cs))"
  unfolding py_split.simps[of s] assms by simp

lemma nbsp_isspace: "py_isspace (char_of (160 :: nat))"
  by (simp add: py_isspace_def)

lemma py_split_empty_iff: "py_split s = [] \<longleftrightarrow> dropWhile py_isspace s = []"
proof (cases "dropWhile py_isspace s")
  case Nil
  with py_split_Nil[OF Nil] show ?thesis by (simp del: dropWhile_eq_Nil_conv)
next
  case (Cons c cs)
  with py_split_Cons[OF Cons] show ?thesis by (simp del: dropWhile_eq_Nil_conv)
qed

lemma py_split_map_blank:
  assumes sp: "\<And>c. py_isspace (f c) = py_isspace c"
    and keep: "\<And>c. \<not> py_isspace c \<Longrightarrow> f c = c"
  shows "py_split (map f s) = py_split s"
proof (induction s rule: py_split.induct)
  case (1 s)
  have dw: "dropWhile py_isspace (map f x) = map f (dropWhile py_isspace x)" for x
    by (simp add: dropWhile_map comp_def sp)
  show ?case
  proof (cases "dropWhile py_isspace s")
    case Nil
    then have "dropWhile py_isspace (map f s) = []"
      by (simp add: dw del: dropWhile_eq_Nil_conv)
    with Nil show ?thesis
      by (simp add: py_split_Nil del: dropWhile_eq_Nil_conv)
  next
    case (Cons c cs)
    let ?t = "c # cs"
    have tw: "takeWhile (\<lambda>x. \<not> py_isspace x) (map f ?t) = takeWhile (\<lambda>x. \<not> py_isspace x) ?t"
    proof -
      have "takeWhile (\<lambda>x. \<not> py_isspace x) (map f ?t)
          = map f (takeWhile (\<lambda>x. \<not> py_isspace x) ?t)"
        by (simp only: takeWhile_map comp_def sp)
      also have "\<dots> = takeWhile (\<lambda>x. \<not> py_isspace x) ?t"
        by (rule map_idI) (auto dest!: set_takeWhileD simp: keep)
      finally show ?thesis .
    qed
    have dw2: "dropWhile (\<lambda>x. \<not> py_isspace x) (map f ?t)
        = map f (dropWhile (\<lambda>x. \<not> py_isspace x) ?t)"
      by (simp only: dropWhile_map comp_def sp)
    have d: "dropWhile py_isspace (map f s) = map f ?t"
      using Cons by (simp add: dw)
    then obtain c' cs' where m: "map f ?t = c' # cs'" by simp
    have "py_split (map f s)
        = takeWhile (\<lambda>x. \<not> py_isspace x) (map f ?t)
            # py_split (dropWhile (\<lambda>x. \<not> py_isspace x) (map f ?t))"
      using py_split_Cons[of "map f s" c' cs'] d m by simp
    also have "\<dots> = takeWhile (\<lambda>x. \<not> py_isspace x) ?t
        # py_split (map f (dropWhile (\<lambda>x. \<not> py_isspace x) ?t))"
      by (simp only: tw dw2)
    also have "\<dots> = takeWhile (\<lambda>x. \<not> py_isspace x) ?t
        # py_split (dropWhile (\<lambda>x. \<not> py_isspace x) ?t)"
      using "1.IH"[OF Cons] by simp
    also have "\<dots> = py_split s"
      using py_split_Cons[OF Cons] by simp
    finally show ?thesis .
  qed
qed

lemma py_split_replace_nbsp: "py_split (replace_nbsp s) = py_split s"
  unfolding replace_nbsp_def
  by (rule py_split_map_blank) (auto simp: py_isspace_def)

lemma clean_text_docx_text: "clean_text (docx_text s) = clean_text s"
proof -
  have n: "char_of (160 :: nat) = CHR 0xA0" by code_simp
  have "replace_nbsp (docx_text s) = docx_text (replace_nbsp s)"
    by (induction s) (simp_all add: replace_nbsp_def docx_text_def n)
  moreover have "py_split (docx_text x) = py_split x" for x
    unfolding docx_text_def
    by (rule py_split_map_blank) (auto simp: py_isspace_def)
  ultimately show ?thesis
    by (simp add: clean_text_def)
qed


lemma py_join_Cons:
  "py_join sep (x # ys) = (if ys = [] then x else x @ sep @ py_join sep ys)"
  by (cases ys) simp_all

lemma collapse_nonblank_prefix:
  "list_all (\<lambda>x. \<not> py_isspace x) xs \<Longrightarrow> collapse_blanks (xs @ r) = xs @ collapse_blanks r"
  by (induction xs) (simp_all add: is_blank_isspace)

lemma collapse_blank_Cons:
  "py_isspace c \<Longrightarrow>
     collapse_blanks (c # cs) = CHR '' '' # collapse_blanks (dropWhile py_isspace cs)"
  by (simp add: is_blank_isspace)

lemma collapse_all_blank:
  "dropWhile py_isspace s = [] \<Longrightarrow> collapse_blanks s = (if s = [] then [] else '' '')"
  by (cases s) (auto simp: is_blank_isspace simp del: dropWhile_eq_Nil_conv split: if_splits)

lemma collapse_starts_nonblank:
  "u = [] \<or> \<not> py_isspace (hd u) \<Longrightarrow> dropWhile py_isspace (collapse_blanks u) = collapse_blanks u"
  by (cases u) (simp_all add: is_blank_isspace)

lemma collapse_empty_iff: "collapse_blanks u = [] \<longleftrightarrow> u = []"
  by (cases u) simp_all

lemma rtrim_append:
  "rev (dropWhile P (rev (a @ b))) =
     (if list_all P b then rev (dropWhile P (rev a)) else a @ rev (dropWhile P (rev b)))"
  by (simp add: dropWhile_append list_all_iff)

lemma rtrim_word:
  assumes "list_all (\<lambda>x. \<not> py_isspace x) xs"
  shows "rev (dropWhile py_isspace (rev xs)) = xs"
proof -
  have "dropWhile py_isspace (rev xs) = rev xs"
    using assms by (cases "rev xs") (auto simp: list_all_iff dest: arg_cong[where f = set])
  then show ?thesis by simp
qed

lemma trim_collapse_join:
  "trim_blanks (collapse_blanks s) = py_join '' '' (py_split s)"
proof (induction s rule: py_split.induct)
  case (1 s)
  show ?case
  proof (cases "dropWhile py_isspace s")
    case Nil
    then show ?thesis
      by (simp add: py_split_Nil collapse_all_blank trim_blanks_def is_blank_isspace
          space_isspace del: dropWhile_eq_Nil_conv)
  next
    case (Cons c cs)
    define word where "word = takeWhile (\<lambda>x. \<not> py_isspace x) (c # cs)"
    define rest where "rest = dropWhile (\<lambda>x. \<not> py_isspace x) (c # cs)"
    have c: "\<not> py_isspace c"
      using Cons by (metis hd_dropWhile list.sel(1) list.distinct(1))
    have word: "list_all (\<lambda>x. \<not> py_isspace x) word"
      by (auto simp: word_def list_all_iff dest: set_takeWhileD)
    have whd: "word \<noteq> [] \<and> \<not> py_isspace (hd word)"
      using c by (simp add: word_def)
    have t: "c # cs = word @ rest"
      by (simp only: word_def rest_def takeWhile_dropWhile_id)
    have split: "py_split s = word # py_split rest"
      unfolding word_def rest_def by (rule py_split_Cons[OF Cons])
    have IH: "trim_blanks (collapse_blanks rest) = py_join '' '' (py_split rest)"
      unfolding rest_def by (rule "1.IH"[OF Cons])
    have cs: "collapse_blanks s = (if s \<noteq> [] \<and> py_isspace (hd s) then '' '' else [])
        @ collapse_blanks (c # cs)"
    proof (cases s)
      case Nil
      with Cons show ?thesis by simp
    next
      case (Cons a as)
      show ?thesis
      proof (cases "py_isspace a")
        case True
        with Cons \<open>dropWhile py_isspace s = c # cs\<close> show ?thesis
          by (simp add: collapse_blank_Cons del: collapse_blanks.simps)
      next
        case False
        with Cons \<open>dropWhile py_isspace s = c # cs\<close> show ?thesis
          by simp
      qed
    qed
    have ct: "collapse_blanks (c # cs) = word @ collapse_blanks rest"
      unfolding t by (rule collapse_nonblank_prefix[OF word])
    have lead: "dropWhile py_isspace (collapse_blanks s) = word @ collapse_blanks rest"
      unfolding cs ct using whd by (cases word) (simp_all add: space_isspace)
    have trim: "trim_blanks (collapse_blanks s) =
        (if list_all py_isspace (collapse_blanks rest) then word
         else word @ rev (dropWhile py_isspace (rev (collapse_blanks rest))))"
      unfolding trim_blanks_def is_blank_isspace lead rtrim_append
      using rtrim_word[OF word] by simp
    have rhd: "rest = [] \<or> py_isspace (hd rest)"
      unfolding rest_def using hd_dropWhile[of "\<lambda>x. \<not> py_isspace x" "c # cs"] by blast
    show ?thesis
    proof (cases rest)
      case Nil
      then have "py_split rest = []" by (simp add: py_split_Nil)
      with Nil trim split show ?thesis by simp
    next
      case rc: (Cons d ds)
      have d: "py_isspace d"
        using rhd rc by simp
      define u where "u = dropWhile py_isspace ds"
      define Y where "Y = collapse_blanks u"
      have ur: "dropWhile py_isspace rest = u"
        unfolding rc u_def using d by simp
      have cr: "collapse_blanks rest = CHR '' '' # Y"
        unfolding rc Y_def u_def using d
        by (simp add: collapse_blank_Cons del: collapse_blanks.simps)
      have u: "u = [] \<or> \<not> py_isspace (hd u)"
        unfolding u_def by (metis hd_dropWhile)
      have Y: "dropWhile py_isspace Y = Y"
        unfolding Y_def by (rule collapse_starts_nonblank[OF u])
      have J: "py_join '' '' (py_split rest) = rev (dropWhile py_isspace (rev Y))"
        using IH unfolding trim_blanks_def is_blank_isspace cr
        by (simp add: space_isspace Y)
      show ?thesis
      proof (cases "u = []")
        case True
        then have "py_split rest = []"
          using ur by (simp add: py_split_Nil)
        moreover have "list_all py_isspace (collapse_blanks rest)"
          unfolding cr Y_def True by (simp add: space_isspace)
        ultimately show ?thesis
          unfolding trim split by simp
      next
        case False
        then have ne: "py_split rest \<noteq> []"
          using ur by (simp add: py_split_empty_iff)
        have Yne: "Y \<noteq> []"
          unfolding Y_def using False by (simp add: collapse_empty_iff)
        have nY: "\<not> list_all py_isspace Y"
        proof
          assume "list_all py_isspace Y"
          then have "dropWhile py_isspace Y = []" by (simp add: list_all_iff)
          with Y Yne show False by simp
        qed
        then have nall: "\<not> list_all py_isspace (collapse_blanks rest)"
          unfolding cr by simp
        have "rev (dropWhile py_isspace (rev (collapse_blanks rest)))
            = '' '' @ rev (dropWhile py_isspace (rev Y))"
          unfolding cr using rtrim_append[of py_isspace "'' ''" Y] nY
          by simp
        with nall ne show ?thesis
          unfolding trim split by (simp add: py_join_Cons J)
      qed
    qed
  qed
qed

lemma clean_text_normalized: "clean_text t = normalized_text t"
  by (simp add: clean_text_def normalized_text_def py_split_replace_nbsp trim_collapse_join)

text \<open>
  Claim C7. The text stored for a table cell is the cell's text with the non-breaking
  space counted as whitespace, every maximal run of whitespace collapsed to one space,
  and the whitespace at both ends removed; the grid read from a table holds that text
  for each of its cells.
\<close>

theorem clean_text_normalizes:
  "clean_text content = normalized_text content
   \<and> (files w p = Some (Docx doc) \<and> 0 \<le> idx \<and> idx < int (length (doc_tables doc)) \<longrightarrow>
        read_table_from_word w p idx = Inr (map (map normalized_text) (doc_tables doc ! nat idx)))"
proof -
  have "clean_text = normalized_text"
    by (simp add: fun_eq_iff clean_text_normalized)
  then show ?thesis
    by (auto simp: read_table_from_word_def open_document_def)
qed


theorem clean_text_normalizes_witness:
  "clean_text messy_text = ''a bc''
   \<and> read_table_from_word (demo_doc_world \<lparr>doc_headings = [], doc_tables = [[[messy_text, ''x'']]]\<rparr>)
        ''in.docx'' 0 = Inr [[''a bc'', ''x'']]"
proof -
  let ?doc = "\<lparr>doc_headings = [], doc_tables = [[[messy_text, ''x'']]]\<rparr>"
  have n: "normalized_text messy_text = ''a bc''" "normalized_text ''x'' = ''x''"
    by code_simp+
  have f: "files (demo_doc_world ?doc) ''in.docx'' = Some (Docx ?doc)"
    by (simp add: demo_doc_world_def)
  note t = clean_text_normalizes[where content = messy_text and w = "demo_doc_world ?doc"
      and p = "''in.docx''" and doc = ?doc and idx = 0]
  from t f n show ?thesis by simp
qed

section \<open>Export: proofs\<close>

lemma fill_table_cells:
  assumes "same_shape tbl data"
    and "\<forall>(i, j) \<in> set ps. i < length data \<and> j < length (data ! i)"
  shows "\<exists>tbl'. fill_table ps data tbl = Inr tbl' \<and> same_shape tbl' data
      \<and> (\<forall>i j. i < length data \<longrightarrow> j < length (data ! i) \<longrightarrow>
            tbl' ! i ! j = (if (i, j) \<in> set ps then docx_text (data ! i ! j) else tbl ! i ! j))"
  using assms
proof (induction ps arbitrary: tbl)
  case Nil
  then show ?case by simp
next
  case (Cons p ps)
  obtain i j where p: "p = (i, j)" by (cases p)
  from Cons.prems p have ij: "i < length data" "j < length (data ! i)"
    by auto
  from Cons.prems(1) ij have tij: "i < length tbl" "j < length (tbl ! i)"
    by (auto simp: same_shape_def)
  define tbl1 where "tbl1 = tbl[i := (tbl ! i)[j := docx_text (data ! i ! j)]]"
  have shape1: "same_shape tbl1 data"
    using Cons.prems(1) tij by (auto simp: same_shape_def tbl1_def nth_list_update)
  have rest: "\<forall>(i, j) \<in> set ps. i < length data \<and> j < length (data ! i)"
    using Cons.prems(2) by auto
  from Cons.IH[OF shape1 rest] obtain tbl' where
    f: "fill_table ps data tbl1 = Inr tbl'" and s: "same_shape tbl' data"
    and c: "\<And>i' j'. i' < length data \<Longrightarrow> j' < length (data ! i') \<Longrightarrow>
            tbl' ! i' ! j' = (if (i', j') \<in> set ps then docx_text (data ! i' ! j')
                             else tbl1 ! i' ! j')"
    by blast
  have step: "fill_table (p # ps) data tbl = Inr tbl'"
    using ij tij f by (simp add: p grid_at_def set_cell_text_def tbl1_def)
  have cells: "tbl' ! i' ! j' = (if (i', j') \<in> set (p # ps) then docx_text (data ! i' ! j')
      else tbl ! i' ! j')"
    if "i' < length data" "j' < length (data ! i')" for i' j'
    using c[OF that] tij that Cons.prems(1)
    by (auto simp: p tbl1_def nth_list_update same_shape_def)
  from step s cells show ?case by blast
qed

lemma same_shape_eq:
  assumes "same_shape xs ys" and "\<forall>i j. i < length ys \<longrightarrow> j < length (ys ! i) \<longrightarrow> xs ! i ! j = ys ! i ! j"
  shows "xs = ys"
proof (rule nth_equalityI)
  show "length xs = length ys" using assms(1) by (simp add: same_shape_def)
next
  fix i assume "i < length xs"
  then have i: "i < length ys" using assms(1) by (simp add: same_shape_def)
  show "xs ! i = ys ! i"
  proof (rule nth_equalityI)
    show "length (xs ! i) = length (ys ! i)" using assms(1) i by (simp add: same_shape_def)
  next
    fix j assume "j < length (xs ! i)"
    then have "j < length (ys ! i)" using assms(1) i by (simp add: same_shape_def)
    with assms(2) i show "xs ! i ! j = ys ! i ! j" by blast
  qed
qed

lemma read_region_shape:
  "length (read_region str_of ws r1 r2 c1 c2) = nat (r2 - r1 + 1)"
  "i < nat (r2 - r1 + 1) \<Longrightarrow> length (read_region str_of ws r1 r2 c1 c2 ! i) = nat (c2 - c1 + 1)"
  "i < nat (r2 - r1 + 1) \<Longrightarrow> j < nat (c2 - c1 + 1) \<Longrightarrow>
     read_region str_of ws r1 r2 c1 c2 ! i ! j = cell_text str_of (cval (ws (r1 + int i, c1 + int j)))"
  by (simp_all add: read_region_def)

lemma build_document_table:
  assumes "length data = nat nrows" and "\<forall>i < nat nrows. length (data ! i) = nat ncols"
  shows "build_document nrows ncols data
     = Inr \<lparr>doc_headings = [1], doc_tables = [map (map docx_text) data]\<rparr>"
proof -
  let ?tbl = "replicate (nat nrows) (replicate (nat ncols) ([] :: string))"
  let ?ps = "List.product [0..<nat nrows] [0..<nat ncols]"
  have shape: "same_shape ?tbl data"
    using assms by (simp add: same_shape_def)
  have idx: "\<forall>(i, j) \<in> set ?ps. i < length data \<and> j < length (data ! i)"
    using assms by auto
  from fill_table_cells[OF shape idx] obtain tbl' where
    f: "fill_table ?ps data ?tbl = Inr tbl'" and s: "same_shape tbl' data"
    and c: "\<forall>i j. i < length data \<longrightarrow> j < length (data ! i) \<longrightarrow>
            tbl' ! i ! j = (if (i, j) \<in> set ?ps then docx_text (data ! i ! j) else ?tbl ! i ! j)"
    by blast
  have s': "same_shape tbl' (map (map docx_text) data)"
    using s by (simp add: same_shape_def)
  have "\<forall>i j. i < length (map (map docx_text) data)
      \<longrightarrow> j < length (map (map docx_text) data ! i)
      \<longrightarrow> tbl' ! i ! j = map (map docx_text) data ! i ! j"
    using c assms by auto
  with s' have "tbl' = map (map docx_text) data" by (rule same_shape_eq)
  with f show ?thesis
    by (simp add: build_document_def new_document_def add_table_def Let_def)
qed

lemma main_e2w_saves:
  assumes "open_source w (excel a) (sheet a) = Inr (Some ws)"
    and "parse_col_arg (col_start a) = Inr c1" and "parse_col_arg (col_end a) = Inr c2"
    and "1 \<le> row_start a" and "row_start a \<le> row_end a" and "c1 \<le> c2"
    and "writable w (word_out a)"
  shows "main_e2w str_of a w =
     (Exit 0, w\<lparr>files := (files w)(word_out a \<mapsto>
        Docx \<lparr>doc_headings = [1],
              doc_tables = [map (map docx_text)
                 (read_region str_of ws (row_start a) (row_end a) c1 c2)]\<rparr>)\<rparr>)"
proof -
  let ?r1 = "row_start a" and ?r2 = "row_end a"
  let ?grid = "read_region str_of ws ?r1 ?r2 c1 c2"
  have ex: "path_exists w (excel a)"
    using assms(1)
    by (auto simp: open_source_def load_workbook_def path_exists_def split: option.splits)
  have len: "length ?grid = nat (?r2 - ?r1 + 1)"
    and rows: "\<forall>i < nat (?r2 - ?r1 + 1). length (?grid ! i) = nat (c2 - c1 + 1)"
    by (simp_all add: read_region_shape)
  have doc: "build_document (?r2 - ?r1 + 1) (c2 - c1 + 1) ?grid
      = Inr \<lparr>doc_headings = [1], doc_tables = [map (map docx_text) ?grid]\<rparr>"
    by (rule build_document_table[OF len rows])
  show ?thesis
    using ex assms doc by (simp add: main_e2w_def Let_def save_file_def)
qed

lemma docx_text_plain: "CHR 0x0D \<notin> set s \<Longrightarrow> docx_text s = s"
  by (induction s) (auto simp: docx_text_def)

text \<open>
  Claim C4, amended. For a valid range and a source sheet, a successful export assembles
  a grid of (r2 - r1 + 1) rows by (c2 - c1 + 1) columns, whose entry (i, j) is the empty
  string for an absent value and the textual representation of the value otherwise, and
  saves a document whose single table has those dimensions and holds in cell (i, j) the
  grid entry with each carriage return turned into a line feed; where no entry has a
  carriage return, the table is the grid.
\<close>

theorem export_table_is_region:
  assumes "open_source w (excel a) (sheet a) = Inr (Some ws)"
    and "parse_col_arg (col_start a) = Inr c1" and "parse_col_arg (col_end a) = Inr c2"
    and "1 \<le> row_start a" and "row_start a \<le> row_end a" and "c1 \<le> c2"
    and "writable w (word_out a)"
    and "grid = read_region str_of ws (row_start a) (row_end a) c1 c2"
  shows "main_e2w str_of a w =
           (Exit 0, w\<lparr>files := (files w)(word_out a \<mapsto>
              Docx \<lparr>doc_headings = [1], doc_tables = [map (map docx_text) grid]\<rparr>)\<rparr>)
       \<and> length grid = nat (row_end a - row_start a + 1)
       \<and> list_all (\<lambda>row. length row = nat (c2 - c1 + 1)) grid
       \<and> (\<forall>i j. i < nat (row_end a - row_start a + 1) \<longrightarrow> j < nat (c2 - c1 + 1) \<longrightarrow>
            grid ! i ! j =
              (case cval (ws (row_start a + int i, c1 + int j)) of
                 None \<Rightarrow> []
               | Some (Text s) \<Rightarrow> s
               | Some (Other x) \<Rightarrow> str_of x))
       \<and> (list_all (list_all (\<lambda>s. CHR 0x0D \<notin> set s)) grid \<longrightarrow>
            map (map docx_text) grid = grid)"
proof -
  let ?r1 = "row_start a" and ?r2 = "row_end a"
  have len: "length grid = nat (?r2 - ?r1 + 1)"
    and rows: "\<forall>i < nat (?r2 - ?r1 + 1). length (grid ! i) = nat (c2 - c1 + 1)"
    by (simp_all add: assms(8) read_region_shape)
  have main: "main_e2w str_of a w =
      (Exit 0, w\<lparr>files := (files w)(word_out a \<mapsto>
         Docx \<lparr>doc_headings = [1], doc_tables = [map (map docx_text) grid]\<rparr>)\<rparr>)"
    unfolding assms(8) by (rule main_e2w_saves[OF assms(1-7)])
  have all: "list_all (\<lambda>row. length row = nat (c2 - c1 + 1)) grid"
    using rows len by (auto simp: list_all_length)
  have cells: "grid ! i ! j =
      (case cval (ws (?r1 + int i, c1 + int j)) of
         None \<Rightarrow> [] | Some (Text s) \<Rightarrow> s | Some (Other x) \<Rightarrow> str_of x)"
    if "i < nat (?r2 - ?r1 + 1)" "j < nat (c2 - c1 + 1)" for i j
    using that by (simp add: assms(8) read_region_shape cell_text_def)
  have plain: "map (map docx_text) grid = grid"
    if "list_all (list_all (\<lambda>s. CHR 0x0D \<notin> set s)) grid"
    using that by (auto simp: list_all_iff docx_text_plain intro!: map_idI)
  from main len all cells plain show ?thesis by blast
qed

theorem export_table_is_region_witness:
  "main_e2w str_bool export_args export_world =
     (Exit 0, export_world\<lparr>files := (files export_world)(''out.docx'' \<mapsto>
        Docx \<lparr>doc_headings = [1],
              doc_tables = [[[''a'', ''b''], [''c'', ''''], ['''', '''']]]\<rparr>)\<rparr>)"
proof -
  have p: "parse_col_arg (col_start export_args) = Inr 3"
    "parse_col_arg (col_end export_args) = Inr 4"
    unfolding export_args_def by code_simp+
  have u: "[2..4] = [2, 3, 4 :: int]" "[3..4] = [3, 4 :: int]"
    by code_simp+
  have g: "[[''a'', ''b''], [''c'', ''''], ['''', '''']]
      = read_region str_bool export_sheet (row_start export_args) (row_end export_args) 3 4"
    by (simp add: read_region_def export_args_def u export_sheet_def cell_text_def
        default_cell_def)
  have o: "open_source export_world (excel export_args) (sheet export_args)
      = Inr (Some export_sheet)"
    by (simp add: open_source_def load_workbook_def export_world_def export_args_def
        truthy_def)
  have r: "1 \<le> row_start export_args" "row_start export_args \<le> row_end export_args"
    "(3::int) \<le> 4" "writable export_world (word_out export_args)"
    by (simp_all add: export_args_def export_world_def)
  from export_table_is_region[OF o p r g]
  show ?thesis by (simp add: export_args_def docx_text_def)
qed

text \<open>The cell text of the document is not the grid entry where the entry has a carriage
  return.\<close>

theorem export_cr_counterexample:
  "read_region (\<lambda>u. ''()'') ((\<lambda>rc. default_cell)
       ((1, 1) := default_cell\<lparr>cval := Some (Text [CHR ''a'', CHR 0x0D, CHR ''b''])\<rparr>)) 1 1 1 1
     = [[[CHR ''a'', CHR 0x0D, CHR ''b'']]]
   \<and> files (snd (main_e2w (\<lambda>u. ''()'') trip_export_args cr_world)) ''out.docx''
     = Some (Docx \<lparr>doc_headings = [1], doc_tables = [[[[CHR ''a'', CHR 0x0A, CHR ''b'']]]]\<rparr>)"
proof -
  have p: "parse_col_arg ''A'' = Inr 1" by code_simp
  have u: "[1..1] = [1 :: int]" by code_simp
  have o: "open_source cr_world (excel trip_export_args) (sheet trip_export_args)
      = Inr (Some ((\<lambda>rc. default_cell)
          ((1, 1) := default_cell\<lparr>cval := Some (Text [CHR ''a'', CHR 0x0D, CHR ''b''])\<rparr>)))"
    by (simp add: open_source_def load_workbook_def cr_world_def trip_export_args_def
        truthy_def wb_active_def)
  have a: "parse_col_arg (col_start trip_export_args) = Inr 1"
    "parse_col_arg (col_end trip_export_args) = Inr 1"
    "1 \<le> row_start trip_export_args" "row_start trip_export_args \<le> row_end trip_export_args"
    "(1::int) \<le> 1" "writable cr_world (word_out trip_export_args)"
    by (simp_all add: trip_export_args_def p cr_world_def)
  have d: "docx_text [CHR ''a'', CHR 0x0D, CHR ''b''] = [CHR ''a'', CHR 0x0A, CHR ''b'']"
    by code_simp
  show ?thesis
    unfolding main_e2w_saves[OF o a]
    by (simp add: read_region_def u trip_export_args_def cell_text_def d)
qed

section \<open>Import: proofs\<close>

lemma write_cell_apply:
  "write_cell ws r c val rc = (if rc = (r, c) then copied_cell val else ws rc)"
  by (simp add: write_cell_def copied_cell_def)

lemma write_cells_result:
  assumes "\<forall>(i, j) \<in> set ps. i < length table_data"
  shows "write_cells ps table_data r1 c1 ws =
     Inr (\<lambda>rc. if r1 \<le> fst rc \<and> c1 \<le> snd rc \<and> (nat (fst rc - r1), nat (snd rc - c1)) \<in> set ps
               then copied_cell (entry_at table_data (nat (fst rc - r1)) (nat (snd rc - c1)))
               else ws rc)"
  using assms
proof (induction ps arbitrary: ws)
  case Nil
  then show ?case by simp
next
  case (Cons p ps)
  obtain i j where p: "p = (i, j)" by (cases p)
  from Cons.prems p have i: "i < length table_data" by auto
  from Cons.prems have rest: "\<forall>(i, j) \<in> set ps. i < length table_data" by auto
  let ?ws1 = "write_cell ws (r1 + int i) (c1 + int j) (entry_at table_data i j)"
  have hit: "rc = (r1 + int i, c1 + int j) \<longleftrightarrow>
      r1 \<le> fst rc \<and> c1 \<le> snd rc \<and> nat (fst rc - r1) = i \<and> nat (snd rc - c1) = j" for rc
    by (cases rc) auto
  have "write_cells (p # ps) table_data r1 c1 ws = write_cells ps table_data r1 c1 ?ws1"
    using i by (simp add: p entry_at_def Let_def)
  also have "\<dots> = Inr (\<lambda>rc. if r1 \<le> fst rc \<and> c1 \<le> snd rc
        \<and> (nat (fst rc - r1), nat (snd rc - c1)) \<in> set ps
      then copied_cell (entry_at table_data (nat (fst rc - r1)) (nat (snd rc - c1)))
      else ?ws1 rc)"
    by (rule Cons.IH[OF rest])
  also have "\<dots> = Inr (\<lambda>rc. if r1 \<le> fst rc \<and> c1 \<le> snd rc
        \<and> (nat (fst rc - r1), nat (snd rc - c1)) \<in> set (p # ps)
      then copied_cell (entry_at table_data (nat (fst rc - r1)) (nat (snd rc - c1)))
      else ws rc)"
    by (auto simp: fun_eq_iff write_cell_apply p hit)
  finally show ?case .
qed

lemma formatted_cell_idem: "formatted_cell (formatted_cell cell) = formatted_cell cell"
  by (simp add: formatted_cell_def border_style_def)

lemma formatted_copied: "formatted_cell (copied_cell val) = copied_cell val"
  by (simp add: formatted_cell_def copied_cell_def border_style_def)

lemma format_cell_apply:
  "format_cell ws rc rc' = (if rc' = rc then formatted_cell (ws rc) else ws rc')"
  by (simp add: format_cell_def formatted_cell_def Let_def)

lemma format_cells_result:
  "format_cells rcs ws = (\<lambda>rc. if rc \<in> set rcs then formatted_cell (ws rc) else ws rc)"
proof (induction rcs arbitrary: ws)
  case Nil
  then show ?case by (simp add: format_cells_def)
next
  case (Cons a rcs)
  have "format_cells (a # rcs) ws = format_cells rcs (format_cell ws a)"
    by (simp add: format_cells_def)
  also have "\<dots> = (\<lambda>rc. if rc \<in> set rcs then formatted_cell (format_cell ws a rc)
      else format_cell ws a rc)"
    by (rule Cons.IH)
  also have "\<dots> = (\<lambda>rc. if rc \<in> set (a # rcs) then formatted_cell (ws rc) else ws rc)"
    by (auto simp: fun_eq_iff format_cell_apply formatted_cell_idem)
  finally show ?case .
qed

lemma write_range_result:
  assumes "table_data \<noteq> []" and "r1 \<le> r2" and "c1 \<le> c2"
  shows "write_range table_data (int (Max (set (map length table_data)))) r1 r2 c1 c2 ws
     = Inr (imported_sheet table_data r1 r2 c1 c2 ws)"
proof -
  let ?rows = "rows_copied table_data r1 r2" and ?cols = "cols_copied table_data c1 c2"
  let ?ps = "List.product [0..<nat ?rows] [0..<nat ?cols]"
  have rows: "?rows \<le> int (length table_data)" "?rows \<le> r2 - r1 + 1"
    and cols: "?cols \<le> c2 - c1 + 1"
    by (simp_all add: rows_copied_def cols_copied_def)
  have ps: "\<forall>(i, j) \<in> set ?ps. i < length table_data"
    using rows(1) by auto
  have mem: "r1 \<le> fst rc \<and> c1 \<le> snd rc \<and> (nat (fst rc - r1), nat (snd rc - c1)) \<in> set ?ps
      \<longleftrightarrow> in_extent table_data r1 r2 c1 c2 rc" for rc
    by (auto simp: in_extent_def)
  have sub: "in_extent table_data r1 r2 c1 c2 rc \<Longrightarrow> in_range r1 r2 c1 c2 rc" for rc
    using rows(2) cols by (auto simp: in_extent_def in_range_def)
  have rng: "rc \<in> set (List.product [r1..r2] [c1..c2]) \<longleftrightarrow> in_range r1 r2 c1 c2 rc" for rc
    by (cases rc) (auto simp: in_range_def)
  have wc: "write_cells ?ps table_data r1 c1 ws =
      Inr (\<lambda>rc. if in_extent table_data r1 r2 c1 c2 rc
                then copied_cell (entry_at table_data (nat (fst rc - r1)) (nat (snd rc - c1)))
                else ws rc)"
    using write_cells_result[OF ps, of r1 c1 ws] by (simp only: mem)
  have "write_range table_data (int (Max (set (map length table_data)))) r1 r2 c1 c2 ws
      = (case write_cells ?ps table_data r1 c1 ws of
           Inl e \<Rightarrow> Inl e
         | Inr ws1 \<Rightarrow> Inr (format_cells (List.product [r1..r2] [c1..c2]) ws1))"
    by (simp only: write_range_def Let_def rows_copied_def cols_copied_def)
  also have "\<dots> = Inr (format_cells (List.product [r1..r2] [c1..c2])
          (\<lambda>rc. if in_extent table_data r1 r2 c1 c2 rc
                then copied_cell (entry_at table_data (nat (fst rc - r1)) (nat (snd rc - c1)))
                else ws rc))"
    by (simp only: wc sum.case)
  also have "\<dots> = Inr (\<lambda>rc. if in_range r1 r2 c1 c2 rc
        then formatted_cell (if in_extent table_data r1 r2 c1 c2 rc
                then copied_cell (entry_at table_data (nat (fst rc - r1)) (nat (snd rc - c1)))
                else ws rc)
        else (if in_extent table_data r1 r2 c1 c2 rc
                then copied_cell (entry_at table_data (nat (fst rc - r1)) (nat (snd rc - c1)))
                else ws rc))"
    by (simp only: format_cells_result rng)
  also have "\<dots> = Inr (imported_sheet table_data r1 r2 c1 c2 ws)"
    using sub by (simp add: fun_eq_iff imported_sheet_def formatted_copied)
  finally show ?thesis .
qed

lemma sheet_index_bound: "sheet_index xs name = Some k \<Longrightarrow> k < length xs"
  by (induction xs name arbitrary: k rule: sheet_index.induct) (auto split: if_splits)

lemma select_sheet_bound: "select_sheet wb name = Some k \<Longrightarrow> k < length (sheets wb)"
  by (auto simp: select_sheet_def wb_active_def split: if_splits dest: sheet_index_bound)

lemma get_column_letter_ok:
  "1 \<le> c \<Longrightarrow> c \<le> 18278 \<Longrightarrow> \<exists>l. get_column_letter c = Inr l"
  by (simp add: get_column_letter_def)

lemma import_ready_main:
  assumes "import_ready b w table_data c1 c2 k"
    and "wb = ensure_workbook w (excel_out b)"
  shows "main_w2e b w =
     (Exit 0, w\<lparr>files := (files w)(excel_out b \<mapsto>
        Xlsx (wb\<lparr>sheets := (sheets wb)[k := (fst (sheets wb ! k),
          imported_sheet table_data (row_start b) (row_end b) c1 c2 (snd (sheets wb ! k)))]\<rparr>))\<rparr>)"
proof -
  from assms(1) have rd: "read_table_from_word w (word_in b) (table_index b) = Inr table_data"
    and ne: "table_data \<noteq> []"
    and p1: "parse_col_arg (col_start b) = Inr c1" and p2: "parse_col_arg (col_end b) = Inr c2"
    and r: "1 \<le> row_start b" "row_start b \<le> row_end b" and c: "c1 \<le> c2" "c2 \<le> 18278"
    and sel: "select_sheet (ensure_workbook w (excel_out b)) (sheet b) = Some k"
    and wr: "writable w (excel_out b)"
    by (simp_all add: import_ready_def)
  have ex: "path_exists w (word_in b)"
    using rd by (auto simp: read_table_from_word_def open_document_def path_exists_def
        split: option.splits)
  have c1: "1 \<le> c1" by (rule parse_col_arg_positive[OF p1])
  obtain l1 l2 where l: "get_column_letter c1 = Inr l1" "get_column_letter c2 = Inr l2"
    using get_column_letter_ok[of c1] get_column_letter_ok[of c2] c1 c by auto
  have "main_w2e b w = copy_table b w (row_start b) (row_end b) c1 c2 table_data"
    by (simp add: main_w2e_valid[OF ex p1 p2 r c(1)] rd)
  also have "\<dots> = save_result w (excel_out b)
      (wb\<lparr>sheets := (sheets wb)[k := (fst (sheets wb ! k),
          imported_sheet table_data (row_start b) (row_end b) c1 c2 (snd (sheets wb ! k)))]\<rparr>) c1 c2"
  proof -
    have sel': "select_sheet wb (sheet b) = Some k"
      using sel assms(2) by simp
    have m: "max_row_len table_data = Inr (int (Max (set (map length table_data))))"
      by (rule max_row_len_Max[OF ne])
    show ?thesis
      unfolding copy_table_def m assms(2)[symmetric] Let_def sel'
      by (simp only: sum.case option.case write_range_result[OF ne r(2) c(1)])
  qed
  finally show ?thesis
    by (simp add: save_result_def l save_file_def wr)
qed

lemma import_ready_cell:
  assumes "import_ready b w table_data c1 c2 k"
    and "ws = snd (sheets (ensure_workbook w (excel_out b)) ! k)"
  shows "result_cell (main_w2e b w) (excel_out b) k rc
     = Some (imported_sheet table_data (row_start b) (row_end b) c1 c2 ws rc)"
proof -
  from assms(1) have "select_sheet (ensure_workbook w (excel_out b)) (sheet b) = Some k"
    by (simp add: import_ready_def)
  then have "k < length (sheets (ensure_workbook w (excel_out b)))"
    by (rule select_sheet_bound)
  then show ?thesis
    by (simp add: import_ready_main[OF assms(1) refl] result_cell_def assms(2))
qed

lemma import_ready_exit:
  "import_ready b w table_data c1 c2 k \<Longrightarrow> fst (main_w2e b w) = Exit 0"
  by (simp add: import_ready_main[OF _ refl])

text \<open>
  Claim C5, amended. A successful import writes values to exactly the cells of the
  copied extent, min(table rows, target rows) rows by min(table columns, target columns)
  columns from (row-start, col-start), a short row padded with the empty string; every
  other cell keeps the value it had, and every cell of the target range gets the
  alignment.
\<close>

theorem import_writes_extent:
  assumes "import_ready b w table_data c1 c2 k"
    and "ws = snd (sheets (ensure_workbook w (excel_out b)) ! k)"
  shows "fst (main_w2e b w) = Exit 0
     \<and> map_option cval (result_cell (main_w2e b w) (excel_out b) k rc) =
         Some (if in_extent table_data (row_start b) (row_end b) c1 c2 rc
               then Some (Text (entry_at table_data (nat (fst rc - row_start b))
                                  (nat (snd rc - c1))))
               else cval (ws rc))
     \<and> (in_range (row_start b) (row_end b) c1 c2 rc \<longrightarrow>
          map_option cell_alignment (result_cell (main_w2e b w) (excel_out b) k rc)
            = Some align)"
  unfolding import_ready_cell[OF assms] import_ready_exit[OF assms(1)]
  by (simp add: imported_sheet_def copied_cell_def formatted_cell_def)

text \<open>
  Claim C9. When the destination workbook cannot be loaded, because the path is absent
  or because what it holds cannot be opened, the importer goes on with a new empty
  workbook, and the run ends with exit status 0 and the new workbook saved.
\<close>

theorem import_falls_back:
  assumes "load_workbook w (excel_out b) = Inl e"
    and "read_table_from_word w (word_in b) (table_index b) = Inr table_data"
    and "table_data \<noteq> []"
    and "parse_col_arg (col_start b) = Inr c1" and "parse_col_arg (col_end b) = Inr c2"
    and "1 \<le> row_start b" and "row_start b \<le> row_end b" and "c1 \<le> c2" and "c2 \<le> 18278"
    and "writable w (excel_out b)"
  shows "ensure_workbook w (excel_out b) = new_workbook
     \<and> main_w2e b w =
         (Exit 0, w\<lparr>files := (files w)(excel_out b \<mapsto>
            Xlsx \<lparr>sheets = [(''Sheet'',
                     imported_sheet table_data (row_start b) (row_end b) c1 c2
                       (\<lambda>rc. default_cell))],
                  active = 0\<rparr>)\<rparr>)"
proof -
  have wb: "ensure_workbook w (excel_out b) = new_workbook"
    using assms(1) by (simp add: ensure_workbook_def)
  have sel: "select_sheet (new_workbook :: 'a workbook) (sheet b) = Some 0"
    by (auto simp: select_sheet_def new_workbook_def wb_active_def)
  have "import_ready b w table_data c1 c2 0"
    using assms(2-10) by (simp add: import_ready_def wb sel)
  from import_ready_main[OF this wb[symmetric]] wb show ?thesis
    by (simp add: new_workbook_def)
qed

lemma scenario_clean: "map (map clean_text) scenario_table = scenario_table"
  unfolding scenario_table_def by code_simp

lemma scenario_args:
  "word_in (demo_import_args i) = ''in.docx''" "table_index (demo_import_args i) = i"
  "excel_out (demo_import_args i) = ''out.xlsx''" "sheet (demo_import_args i) = None"
  "row_start (demo_import_args i) = 1" "row_end (demo_import_args i) = 2"
  "parse_col_arg (col_start (demo_import_args i)) = Inr 1"
  "parse_col_arg (col_end (demo_import_args i)) = Inr 4"
proof -
  have "parse_col_arg ''A'' = Inr 1" "parse_col_arg ''D'' = Inr 4" by code_simp+
  then show "parse_col_arg (col_start (demo_import_args i)) = Inr 1"
    "parse_col_arg (col_end (demo_import_args i)) = Inr 4"
    by (simp_all add: demo_import_args_def)
qed (simp_all add: demo_import_args_def)

lemma scenario_read:
  "files w ''in.docx'' = Some (Docx scenario_doc) \<Longrightarrow>
     read_table_from_word w ''in.docx'' 0 = Inr scenario_table"
  by (simp add: read_table_from_word_def open_document_def scenario_doc_def scenario_clean)

lemma fresh_ready: "import_ready (demo_import_args 0) fresh_world scenario_table 1 4 0"
  by (simp add: import_ready_def scenario_args scenario_read fresh_world_def
      ensure_workbook_def path_exists_def select_sheet_def truthy_def wb_active_def
      new_workbook_def scenario_table_def)

lemma fresh_sheet:
  "snd (sheets (ensure_workbook fresh_world (excel_out (demo_import_args 0))) ! 0)
     = (\<lambda>rc. default_cell)"
  by (simp add: scenario_args fresh_world_def ensure_workbook_def path_exists_def
      new_workbook_def)

lemma old_ready: "import_ready (demo_import_args 0) old_world scenario_table 1 4 0"
  by (simp add: import_ready_def scenario_args scenario_read old_world_def
      ensure_workbook_def path_exists_def load_workbook_def select_sheet_def truthy_def
      wb_active_def scenario_table_def)

lemma old_sheet_loaded:
  "snd (sheets (ensure_workbook old_world (excel_out (demo_import_args 0))) ! 0) = old_sheet"
  by (simp add: scenario_args old_world_def ensure_workbook_def path_exists_def
      load_workbook_def)

lemma scenario_extent:
  "in_extent scenario_table 1 2 1 4 (r, c) \<longleftrightarrow> 1 \<le> r \<and> r \<le> 2 \<and> 1 \<le> c \<and> c \<le> 3"
  by (auto simp: in_extent_def rows_copied_def cols_copied_def scenario_table_def)

theorem import_writes_extent_witness:
  "map (\<lambda>rc. map_option cval
          (result_cell (main_w2e (demo_import_args 0) fresh_world) ''out.xlsx'' 0 rc))
       [(1, 1), (1, 2), (1, 3), (1, 4), (2, 1), (2, 2), (2, 3), (2, 4)]
     = [Some (Some (Text ''x'')), Some (Some (Text ''y'')), Some (Some (Text ''z'')), Some None,
        Some (Some (Text ''1'')), Some (Some (Text ''2'')), Some (Some (Text '''')), Some None]
   \<and> map_option cell_alignment
        (result_cell (main_w2e (demo_import_args 0) fresh_world) ''out.xlsx'' 0 (1, 4))
       = Some align"
proof -
  note t = import_writes_extent[OF fresh_ready fresh_sheet[symmetric]]
  have e: "entry_at scenario_table 0 0 = ''x''" "entry_at scenario_table 0 (Suc 0) = ''y''"
    "entry_at scenario_table 0 (Suc (Suc 0)) = ''z''" "entry_at scenario_table (Suc 0) 0 = ''1''"
    "entry_at scenario_table (Suc 0) (Suc 0) = ''2''"
    "entry_at scenario_table (Suc 0) (Suc (Suc 0)) = ''''"
    by (simp_all add: entry_at_def scenario_table_def)
  note s = scenario_args scenario_extent default_cell_def in_range_def e
  from t[of "(1, 1)"] t[of "(1, 2)"] t[of "(1, 3)"] t[of "(1, 4)"]
    t[of "(2, 1)"] t[of "(2, 2)"] t[of "(2, 3)"] t[of "(2, 4)"]
  show ?thesis
    by (simp add: s numeral_2_eq_2)
qed

theorem import_row_counterexample:
  "map_option cval
      (result_cell (main_w2e (demo_import_args 0) fresh_world) ''out.xlsx'' 0 (1, 4))
     \<noteq> Some (Some (Text ''''))
   \<and> map_option cval
      (result_cell (main_w2e (demo_import_args 0) old_world) ''out.xlsx'' 0 (1, 4))
     = Some (Some (Text ''old''))"
proof -
  have "result_cell (main_w2e (demo_import_args 0) fresh_world) ''out.xlsx'' 0 (1, 4)
      = Some (formatted_cell default_cell)"
    using import_ready_cell[OF fresh_ready fresh_sheet[symmetric], of "(1, 4)"]
    by (simp add: scenario_args imported_sheet_def scenario_extent in_range_def)
  moreover have "result_cell (main_w2e (demo_import_args 0) old_world) ''out.xlsx'' 0 (1, 4)
      = Some (formatted_cell (old_sheet (1, 4)))"
    using import_ready_cell[OF old_ready old_sheet_loaded[symmetric], of "(1, 4)"]
    by (simp add: scenario_args imported_sheet_def scenario_extent in_range_def)
  ultimately show ?thesis
    by (simp add: formatted_cell_def default_cell_def old_sheet_def)
qed

text \<open>
  Claim C6, which the program does not meet. The claim is that after a successful import
  every cell of the target range, the cells beyond the copied extent included, has
  word-wrap on, vertical alignment top and thin black borders on its four sides. The
  second loop sets the border only where the left side of the cell's border is
  \<^verbatim>\<open>None\<close>, and a cell that nothing touched before has the default border, whose left
  side is a side without a style. In the import scenario with a new workbook the run
  succeeds, A1 is wrapped and bordered, and D1 and D2, beyond the three copied columns,
  are wrapped and keep the default border.
\<close>

theorem import_leaves_new_cells_unbordered:
  "fst (main_w2e (demo_import_args 0) fresh_world) = Exit 0
   \<and> map (\<lambda>rc. map_option cell_border
          (result_cell (main_w2e (demo_import_args 0) fresh_world) ''out.xlsx'' 0 rc))
       [(1, 1), (1, 4), (2, 4)]
     = [Some border_style, Some default_border, Some default_border]
   \<and> map (\<lambda>rc. map_option cell_alignment
          (result_cell (main_w2e (demo_import_args 0) fresh_world) ''out.xlsx'' 0 rc))
       [(1, 1), (1, 4), (2, 4)]
     = [Some align, Some align, Some align]
   \<and> default_border \<noteq> border_style"
proof -
  have c: "result_cell (main_w2e (demo_import_args 0) fresh_world) ''out.xlsx'' 0 rc
      = Some (imported_sheet scenario_table 1 2 1 4 (\<lambda>rc. default_cell) rc)" for rc
    using import_ready_cell[OF fresh_ready fresh_sheet[symmetric], of rc]
    by (simp add: scenario_args)
  have "default_border \<noteq> border_style"
    by (simp add: default_border_def border_style_def default_side_def thin_def)
  with import_ready_exit[OF fresh_ready] show ?thesis
    by (simp add: c imported_sheet_def scenario_extent in_range_def copied_cell_def
        formatted_cell_def default_cell_def default_border_def)
qed

theorem import_falls_back_witness:
  "path_exists garbage_world ''out.xlsx''
   \<and> ensure_workbook garbage_world ''out.xlsx'' = new_workbook
   \<and> fst (main_w2e (demo_import_args 0) garbage_world) = Exit 0
   \<and> map_option cval
        (result_cell (main_w2e (demo_import_args 0) garbage_world) ''out.xlsx'' 0 (1, 1))
       = Some (Some (Text ''x''))"
proof -
  have f: "files garbage_world ''in.docx'' = Some (Docx scenario_doc)"
    "load_workbook garbage_world (excel_out (demo_import_args 0)) = Inl OpenError"
    "writable garbage_world (excel_out (demo_import_args 0))"
    "path_exists garbage_world ''out.xlsx''"
    by (simp_all add: garbage_world_def load_workbook_def scenario_args path_exists_def)
  have rd: "read_table_from_word garbage_world (word_in (demo_import_args 0))
      (table_index (demo_import_args 0)) = Inr scenario_table"
    using scenario_read[OF f(1)] by (simp add: scenario_args)
  have ne: "scenario_table \<noteq> []" by (simp add: scenario_table_def)
  have "(1::int) \<le> row_start (demo_import_args 0)"
    "row_start (demo_import_args 0) \<le> row_end (demo_import_args 0)"
    "(1::int) \<le> 4" "(4::int) \<le> 18278"
    by (simp_all add: scenario_args)
  note t = import_falls_back[OF f(2) rd ne scenario_args(7,8) this f(3)]
  have e: "entry_at scenario_table 0 0 = ''x''"
    by (simp add: entry_at_def scenario_table_def)
  from t f(4) show ?thesis
    by (simp add: scenario_args result_cell_def imported_sheet_def scenario_extent
        copied_cell_def e)
qed


section \<open>Round trip: proofs\<close>

lemma Max_all_equal:
  assumes "xs \<noteq> []" and "\<forall>x \<in> set xs. f x = n"
  shows "Max (set (map f xs)) = n"
proof -
  have "set (map f xs) = {n}"
    using assms by (cases xs) auto
  then show ?thesis by simp
qed

lemma roundtrip_cell:
  assumes "open_source w (excel a) (sheet a) = Inr (Some ws)"
    and "parse_col_arg (col_start a) = Inr e1" and "parse_col_arg (col_end a) = Inr e2"
    and "1 \<le> row_start a" and "row_start a \<le> row_end a" and "e1 \<le> e2"
    and "writable w (word_out a)"
    and "w' = snd (main_e2w str_of a w)"
    and "word_in b = word_out a" and "table_index b = 0"
    and "parse_col_arg (col_start b) = Inr c1" and "parse_col_arg (col_end b) = Inr c2"
    and "1 \<le> row_start b"
    and "row_end b - row_start b = row_end a - row_start a" and "c2 - c1 = e2 - e1"
    and "c2 \<le> 18278"
    and "select_sheet (ensure_workbook w' (excel_out b)) (sheet b) = Some k"
    and "writable w (excel_out b)"
    and "0 \<le> i" and "i \<le> row_end a - row_start a" and "0 \<le> j" and "j \<le> e2 - e1"
  shows "fst (main_e2w str_of a w) = Exit 0 \<and> fst (main_w2e b w') = Exit 0
     \<and> map_option cval (result_cell (main_w2e b w') (excel_out b) k (row_start b + i, c1 + j))
         = Some (Some (Text (normalized_text
             (cell_text str_of (cval (ws (row_start a + i, e1 + j)))))))"
proof -
  let ?grid = "read_region str_of ws (row_start a) (row_end a) e1 e2"
  let ?td = "map (map normalized_text) ?grid"
  let ?n = "nat (row_end a - row_start a + 1)" and ?m = "nat (e2 - e1 + 1)"
  have exp: "main_e2w str_of a w =
      (Exit 0, w\<lparr>files := (files w)(word_out a \<mapsto>
         Docx \<lparr>doc_headings = [1], doc_tables = [map (map docx_text) ?grid]\<rparr>)\<rparr>)"
    by (rule main_e2w_saves[OF assms(1-7)])
  then have w': "files w' (word_in b)
      = Some (Docx \<lparr>doc_headings = [1], doc_tables = [map (map docx_text) ?grid]\<rparr>)"
    "writable w' = writable w"
    by (simp_all add: assms(8,9))
  have nd: "clean_text (docx_text x) = normalized_text x" for x
    by (subst clean_text_docx_text) (rule clean_text_normalized)
  have cd: "map (map clean_text) (map (map docx_text) ?grid) = ?td"
    by (simp add: comp_def nd)
  have rd: "read_table_from_word w' (word_in b) (table_index b) = Inr ?td"
    using w'(1) cd by (simp add: read_table_from_word_def open_document_def assms(10))
  have len: "length ?td = ?n" and row: "\<And>r. r < ?n \<Longrightarrow> length (?td ! r) = ?m"
    by (simp_all add: read_region_shape)
  have ne: "?td \<noteq> []"
    using len assms(5) by auto
  have ready: "import_ready b w' ?td c1 c2 k"
    using rd ne assms(11-18) assms(5,6) by (simp add: import_ready_def w'(2))
  have "\<forall>x \<in> set ?td. length x = ?m"
    using len row by (auto simp: in_set_conv_nth)
  then have mx: "Max (set (map length ?td)) = ?m"
    by (rule Max_all_equal[OF ne])
  have ext: "in_extent ?td (row_start b) (row_end b) c1 c2 (row_start b + i, c1 + j)"
    using assms(5,6,14,15,19-22) unfolding in_extent_def rows_copied_def cols_copied_def mx len
    by auto
  have ij: "nat i < ?n" "nat j < ?m"
    using assms(19-22) by auto
  have ent: "entry_at ?td (nat i) (nat j)
      = normalized_text (cell_text str_of (cval (ws (row_start a + i, e1 + j))))"
    using ij assms(19,21) row[OF ij(1)] len
    by (simp add: entry_at_def read_region_shape)
  have "result_cell (main_w2e b w') (excel_out b) k (row_start b + i, c1 + j)
      = Some (copied_cell (entry_at ?td (nat i) (nat j)))"
    using import_ready_cell[OF ready refl, of "(row_start b + i, c1 + j)"] ext
    by (simp add: imported_sheet_def)
  with exp import_ready_exit[OF ready] ent show ?thesis
    by (simp add: copied_cell_def)
qed

text \<open>
  Claim C1, amended. Exporting a region and importing the single table of the document
  written back into a range of the same dimensions gives, in every cell, the text of the
  original value as the import path cleans it: the non-breaking space counted as
  whitespace, whitespace runs collapsed to one space, and the whitespace at both ends
  removed.
\<close>

theorem roundtrip_normalizes:
  assumes "open_source w (excel a) (sheet a) = Inr (Some ws)"
    and "parse_col_arg (col_start a) = Inr e1" and "parse_col_arg (col_end a) = Inr e2"
    and "1 \<le> row_start a" and "row_start a \<le> row_end a" and "e1 \<le> e2"
    and "writable w (word_out a)"
    and "w' = snd (main_e2w str_of a w)"
    and "word_in b = word_out a" and "table_index b = 0"
    and "parse_col_arg (col_start b) = Inr c1" and "parse_col_arg (col_end b) = Inr c2"
    and "1 \<le> row_start b"
    and "row_end b - row_start b = row_end a - row_start a" and "c2 - c1 = e2 - e1"
    and "c2 \<le> 18278"
    and "select_sheet (ensure_workbook w' (excel_out b)) (sheet b) = Some k"
    and "writable w (excel_out b)"
    and "0 \<le> i" and "i \<le> row_end a - row_start a" and "0 \<le> j" and "j \<le> e2 - e1"
  shows "fst (main_e2w str_of a w) = Exit 0 \<and> fst (main_w2e b w') = Exit 0
     \<and> map_option cval (result_cell (main_w2e b w') (excel_out b) k (row_start b + i, c1 + j))
         = Some (Some (Text (normalized_text
             (case cval (ws (row_start a + i, e1 + j)) of
                None \<Rightarrow> []
              | Some (Text s) \<Rightarrow> s
              | Some (Other x) \<Rightarrow> str_of x))))"
  using roundtrip_cell[OF assms] by (simp add: cell_text_def)

lemma trip_facts:
  "open_source trip_world (excel trip_export_args) (sheet trip_export_args)
     = Inr (Some ((\<lambda>rc. default_cell)((1, 1) := default_cell\<lparr>cval := Some (Text '' a'')\<rparr>)))"
  "parse_col_arg (col_start trip_export_args) = Inr 1"
  "parse_col_arg (col_end trip_export_args) = Inr 1"
  "1 \<le> row_start trip_export_args" "row_start trip_export_args \<le> row_end trip_export_args"
  "(1::int) \<le> 1"
  "writable trip_world (word_out trip_export_args)"
  "word_in trip_import_args = word_out trip_export_args" "table_index trip_import_args = 0"
  "parse_col_arg (col_start trip_import_args) = Inr 1"
  "parse_col_arg (col_end trip_import_args) = Inr 1"
  "1 \<le> row_start trip_import_args"
  "row_end trip_import_args - row_start trip_import_args
     = row_end trip_export_args - row_start trip_export_args"
  "(1::int) - 1 = 1 - 1" "(1::int) \<le> 18278"
proof -
  have "parse_col_arg ''A'' = Inr 1" by code_simp
  then show "parse_col_arg (col_start trip_export_args) = Inr 1"
    "parse_col_arg (col_end trip_export_args) = Inr 1"
    "parse_col_arg (col_start trip_import_args) = Inr 1"
    "parse_col_arg (col_end trip_import_args) = Inr 1"
    by (simp_all add: trip_export_args_def trip_import_args_def)
qed (simp_all add: trip_world_def trip_export_args_def trip_import_args_def open_source_def
    load_workbook_def truthy_def wb_active_def)

lemma trip_select:
  "select_sheet (ensure_workbook (snd (main_e2w str_of trip_export_args trip_world))
      (excel_out trip_import_args)) (sheet trip_import_args) = Some 0"
proof -
  have "files (snd (main_e2w str_of trip_export_args trip_world)) ''back.xlsx'' = None"
    unfolding main_e2w_saves[OF trip_facts(1-7)]
    by (simp add: trip_world_def trip_export_args_def)
  then show ?thesis
    by (simp add: ensure_workbook_def path_exists_def trip_import_args_def select_sheet_def
        truthy_def wb_active_def new_workbook_def)
qed

lemma trip_writable: "writable trip_world (excel_out trip_import_args)"
  by (simp add: trip_world_def)

theorem roundtrip_normalizes_witness:
  "fst (main_e2w (\<lambda>u. ''()'') trip_export_args trip_world) = Exit 0
   \<and> map_option cval
        (result_cell (main_w2e trip_import_args
            (snd (main_e2w (\<lambda>u. ''()'') trip_export_args trip_world))) ''back.xlsx'' 0 (1, 1))
       = Some (Some (Text ''a''))"
proof -
  have n: "normalized_text '' a'' = ''a''" by code_simp
  have z: "(0::int) \<le> 0" "(0::int) \<le> row_end trip_export_args - row_start trip_export_args"
    "(0::int) \<le> 1 - 1"
    by (simp_all add: trip_export_args_def)
  from roundtrip_normalizes[where str_of = "\<lambda>u. ''()''", OF trip_facts(1-7) refl
      trip_facts(8-15) trip_select trip_writable z(1,2) z(1,3)]
  show ?thesis
    by (simp add: n trip_import_args_def trip_export_args_def)
qed

theorem roundtrip_counterexample:
  "map_option cval
      (result_cell (main_w2e trip_import_args
          (snd (main_e2w (\<lambda>u. ''()'') trip_export_args trip_world))) ''back.xlsx'' 0 (1, 1))
     = Some (Some (Text ''a''))
   \<and> collapse_blanks '' a'' = '' a''
   \<and> ''a'' \<noteq> '' a''"
proof -
  have n: "normalized_text '' a'' = ''a''" "collapse_blanks '' a'' = '' a''" by code_simp+
  have z: "(0::int) \<le> 0" "(0::int) \<le> row_end trip_export_args - row_start trip_export_args"
    "(0::int) \<le> 1 - 1"
    by (simp_all add: trip_export_args_def)
  from roundtrip_cell[where str_of = "\<lambda>u. ''()''", OF trip_facts(1-7) refl
      trip_facts(8-15) trip_select trip_writable z(1,2) z(1,3)]
  have "map_option cval
      (result_cell (main_w2e trip_import_args
          (snd (main_e2w (\<lambda>u. ''()'') trip_export_args trip_world))) ''back.xlsx'' 0 (1, 1))
     = Some (Some (Text ''a''))"
    by (simp add: n(1) trip_import_args_def trip_export_args_def cell_text_def)
  moreover have "''a'' \<noteq> '' a''" by simp
  ultimately show ?thesis
    using n(2) by blast
qed


end
